theory Spec2Isabelle
  imports Complex_Main
begin

section \<open>Data model\<close>

text \<open>
  The arena server is TypeScript. A JavaScript \<open>number\<close> is modelled as a \<open>real\<close>:
  arithmetic is exact, the rounding of IEEE doubles is not modelled. Where the source
  divides by a quantity that can be zero the model says so with an explicit fault value.
  Cosmetic fields (colours, names, customisation presets) are left out of the records;
  every field the simulation reads or writes is kept under the source's name, prefixed
  by the name of its interface.
\<close>

datatype WeaponType = Cannon | Machinegun

datatype WallMaterial = Concrete | Wood | Metal | Glass

datatype BoonType = Health | Shield | Speed | Damage | Rapidfire

datatype GameStatus = Waiting | Playing | Gameover

record CarState =
  car_id :: string
  car_x :: real
  car_y :: real
  car_angle :: real
  car_velocityX :: real
  car_velocityY :: real
  car_health :: real
  car_maxHealth :: real
  car_shield :: real
  car_maxShield :: real
  car_shieldRechargeTimer :: real
  car_score :: real
  car_isBoosting :: bool
  car_boostFuel :: real
  car_maxBoostFuel :: real
  car_boostRechargeTimer :: real
  car_maxSpeed :: real
  car_boostSpeed :: real
  car_acceleration :: real
  car_turnSpeed :: real
  car_bulletDamageMultiplier :: real

record Bullet =
  bullet_id :: string
  bullet_ownerId :: string
  bullet_x :: real
  bullet_y :: real
  bullet_velocityX :: real
  bullet_velocityY :: real
  bullet_angle :: real
  bullet_damage :: real
  bullet_weaponType :: WeaponType
  bullet_size :: real

record Wall =
  wall_id :: string
  wall_x :: real
  wall_y :: real
  wall_width :: real
  wall_height :: real
  wall_material :: WallMaterial
  wall_health :: real
  wall_maxHealth :: real

record Boon =
  boon_id :: string
  boon_x :: real
  boon_y :: real
  boon_type :: BoonType
  boon_spawnTime :: real
  boon_lifetime :: real

text \<open>
  \<open>GameState.players\<close> is a JavaScript object keyed by player id; \<open>for ... in\<close> walks
  its keys in insertion order, so it is an association list here (keys are unique in the
  source; the theorems that need it assume \<open>distinct (map fst ps)\<close>).
\<close>

record GameState =
  gs_players :: "(string \<times> CarState) list"
  gs_bullets :: "Bullet list"
  gs_walls :: "Wall list"
  gs_boons :: "Boon list"
  gs_gameStatus :: GameStatus
  gs_winner :: "string option"


section \<open>Constants\<close>

definition GAME_WIDTH :: real where "GAME_WIDTH = 1200"
definition GAME_HEIGHT :: real where "GAME_HEIGHT = 800"
definition CAR_WIDTH :: real where "CAR_WIDTH = 50"
definition CAR_HEIGHT :: real where "CAR_HEIGHT = 30"
definition BULLET_SIZE :: real where "BULLET_SIZE = 5"
definition SHIELD_RECHARGE_DELAY :: real where "SHIELD_RECHARGE_DELAY = 3000"
definition SCORE_PER_HIT :: real where "SCORE_PER_HIT = 10"
definition SCORE_PER_KILL :: real where "SCORE_PER_KILL = 100"
definition COLLISION_DAMAGE_THRESHOLD :: real where "COLLISION_DAMAGE_THRESHOLD = 3"
definition COLLISION_DAMAGE_MULTIPLIER :: real where "COLLISION_DAMAGE_MULTIPLIER = 2"

record WallMaterialConfig =
  wm_health :: real
  wm_damageResistance :: real

fun WALL_MATERIALS :: "WallMaterial \<Rightarrow> WallMaterialConfig" where
  "WALL_MATERIALS Concrete = \<lparr>wm_health = 200, wm_damageResistance = 3 / 10\<rparr>"
| "WALL_MATERIALS Wood = \<lparr>wm_health = 80, wm_damageResistance = 0\<rparr>"
| "WALL_MATERIALS Metal = \<lparr>wm_health = 300, wm_damageResistance = 1 / 2\<rparr>"
| "WALL_MATERIALS Glass = \<lparr>wm_health = 40, wm_damageResistance = 0\<rparr>"

record WeaponConfig =
  wc_speed :: real
  wc_damage :: real
  wc_size :: real
  wc_cooldown :: real

fun WEAPON_CONFIGS :: "WeaponType \<Rightarrow> WeaponConfig" where
  "WEAPON_CONFIGS Cannon =
     \<lparr>wc_speed = 12, wc_damage = 35, wc_size = 10, wc_cooldown = 1200\<rparr>"
| "WEAPON_CONFIGS Machinegun =
     \<lparr>wc_speed = 18, wc_damage = 5, wc_size = 3, wc_cooldown = 100\<rparr>"

section \<open>Geometry helpers\<close>

text \<open>\<open>rectangleIntersectsWall\<close> of the wall utilities: axis-aligned overlap, edges included.\<close>

definition rectangleIntersectsWall :: "real \<Rightarrow> real \<Rightarrow> real \<Rightarrow> real \<Rightarrow> Wall \<Rightarrow> bool" where
  "rectangleIntersectsWall rx ry rWidth rHeight wall =
     (\<not> (rx + rWidth / 2 < wall_x wall - wall_width wall / 2 \<or>
         rx - rWidth / 2 > wall_x wall + wall_width wall / 2 \<or>
         ry + rHeight / 2 < wall_y wall - wall_height wall / 2 \<or>
         ry - rHeight / 2 > wall_y wall + wall_height wall / 2))"

text \<open>\<open>Vector.fromAngle\<close> and \<open>Vector.add\<close> on pairs \<open>(x, y)\<close>.\<close>

definition fromAngle :: "real \<Rightarrow> real \<Rightarrow> real \<times> real" where
  "fromAngle angle magnitude = (cos angle * magnitude, sin angle * magnitude)"

definition vadd :: "real \<times> real \<Rightarrow> real \<times> real \<Rightarrow> real \<times> real" where
  "vadd a b = (fst a + fst b, snd a + snd b)"

section \<open>CollisionSystem: projectile tests\<close>

definition checkBulletCarCollision :: "Bullet \<Rightarrow> CarState \<Rightarrow> bool" where
  "checkBulletCarCollision bullet car =
     (let dx = \<bar>bullet_x bullet - car_x car\<bar>;
          dy = \<bar>bullet_y bullet - car_y car\<bar>;
          hitBoxPadding = 5
      in dx < CAR_WIDTH / 2 + hitBoxPadding \<and> dy < CAR_HEIGHT / 2 + hitBoxPadding)"

definition isBulletOutOfBounds :: "Bullet \<Rightarrow> real \<Rightarrow> real \<Rightarrow> bool" where
  "isBulletOutOfBounds bullet width height =
     (bullet_x bullet < 0 \<or> bullet_x bullet > width \<or>
      bullet_y bullet < 0 \<or> bullet_y bullet > height)"

definition checkBulletWallCollision :: "Bullet \<Rightarrow> Wall \<Rightarrow> bool" where
  "checkBulletWallCollision bullet wall =
     rectangleIntersectsWall (bullet_x bullet) (bullet_y bullet) BULLET_SIZE BULLET_SIZE wall"

section \<open>CombatSystem: damage and the bullet update\<close>

record WallDamageResult =
  wdr_wallId :: string
  wdr_damage :: real
  wdr_destroyed :: bool

text \<open>\<open>applyWallDamage\<close> mutates the wall and returns the result record.\<close>

definition applyWallDamage :: "Bullet \<Rightarrow> Wall \<Rightarrow> Wall \<times> WallDamageResult" where
  "applyWallDamage bullet wall =
     (let materialConfig = WALL_MATERIALS (wall_material wall);
          effectiveDamage =
            real_of_int \<lfloor>bullet_damage bullet * (1 - wm_damageResistance materialConfig)\<rfloor>;
          wall' = wall\<lparr>wall_health := wall_health wall - effectiveDamage\<rparr>;
          destroyed = (wall_health wall' \<le> 0)
      in (wall', \<lparr>wdr_wallId = wall_id wall, wdr_damage = effectiveDamage,
                  wdr_destroyed = destroyed\<rparr>))"

text \<open>Writing through an object reference held in the players object: the entry under
  the key is replaced.\<close>

definition updatePlayer ::
  "string \<Rightarrow> (CarState \<Rightarrow> CarState) \<Rightarrow> (string \<times> CarState) list \<Rightarrow> (string \<times> CarState) list" where
  "updatePlayer pid f ps = map (\<lambda>(k, c). if k = pid then (k, f c) else (k, c)) ps"

text \<open>The first half of \<open>applyDamage\<close>: what happens to the target (shield first, the
  rest to health, recharge timer reset).\<close>

definition damageTarget :: "Bullet \<Rightarrow> CarState \<Rightarrow> CarState" where
  "damageTarget bullet target =
     (let remainingDamage = bullet_damage bullet;
          shieldDamage = (if car_shield target > 0
                          then min (car_shield target) remainingDamage else 0);
          target1 = (if car_shield target > 0
                     then target\<lparr>car_shield := car_shield target - shieldDamage\<rparr>
                     else target);
          remainingDamage1 = (if car_shield target > 0
                              then remainingDamage - shieldDamage else remainingDamage);
          target2 = (if remainingDamage1 > 0
                     then target1\<lparr>car_health := car_health target1 - remainingDamage1\<rparr>
                     else target1)
      in target2\<lparr>car_shieldRechargeTimer := SHIELD_RECHARGE_DELAY\<rparr>)"

text \<open>The second half: the shooter is looked up by the bullet's owner id after the target
  has been written, and is awarded only if it is still in the players object.\<close>

definition awardShooter :: "Bullet \<Rightarrow> CarState \<Rightarrow> CarState \<Rightarrow> CarState" where
  "awardShooter bullet target shooter =
     (let shooter1 = shooter\<lparr>car_score := car_score shooter + SCORE_PER_HIT\<rparr>
      in if car_health target \<le> 0
         then shooter1\<lparr>car_score := car_score shooter1 + SCORE_PER_KILL\<rparr>
         else shooter1)"

definition applyDamage :: "Bullet \<Rightarrow> string \<Rightarrow> CarState \<Rightarrow> GameState \<Rightarrow> GameState" where
  "applyDamage bullet targetId target gameState =
     (let target' = damageTarget bullet target;
          players1 = updatePlayer targetId (\<lambda>_. target') (gs_players gameState)
      in case map_of players1 (bullet_ownerId bullet) of
           None \<Rightarrow> gameState\<lparr>gs_players := players1\<rparr>
         | Some shooter \<Rightarrow>
             gameState\<lparr>gs_players :=
               updatePlayer (bullet_ownerId bullet) (awardShooter bullet target') players1\<rparr>)"

text \<open>The inner loop over walls: walls already marked for removal are skipped, the first
  wall hit is damaged and ends the loop.\<close>

fun hitWalls :: "Bullet \<Rightarrow> Wall list \<Rightarrow> string set \<Rightarrow> Wall list \<times> WallDamageResult option" where
  "hitWalls bullet [] wallsToRemove = ([], None)"
| "hitWalls bullet (wall # rest) wallsToRemove =
     (if wall_id wall \<in> wallsToRemove
      then (let (rest', r) = hitWalls bullet rest wallsToRemove in (wall # rest', r))
      else if checkBulletWallCollision bullet wall
      then (let (wall', damageResult) = applyWallDamage bullet wall
            in (wall' # rest, Some damageResult))
      else (let (rest', r) = hitWalls bullet rest wallsToRemove in (wall # rest', r)))"

text \<open>The inner loop over players: the owner and dead players are skipped, the first
  living player hit is damaged and ends the loop. The boolean says whether one was hit.\<close>

fun hitPlayers :: "Bullet \<Rightarrow> (string \<times> CarState) list \<Rightarrow> GameState \<Rightarrow> GameState \<times> bool" where
  "hitPlayers bullet [] gameState = (gameState, False)"
| "hitPlayers bullet ((playerId, target) # rest) gameState =
     (if playerId = bullet_ownerId bullet then hitPlayers bullet rest gameState
      else if car_health target \<le> 0 then hitPlayers bullet rest gameState
      else if checkBulletCarCollision bullet target
      then (applyDamage bullet playerId target gameState, True)
      else hitPlayers bullet rest gameState)"

text \<open>The local variables of \<open>updateBullets\<close> that live across iterations, with the game
  state they mutate.\<close>

record BulletLoop =
  bl_state :: GameState
  bl_bulletsToRemove :: "string set"
  bl_wallsToRemove :: "string set"
  bl_results :: "WallDamageResult list"

text \<open>One iteration of the outer loop. It starts by moving the bullet in place
  (\<open>moveBullet\<close>); every test that follows sees the moved bullet, which is also the one
  that stays in the list.\<close>

definition moveBullet :: "Bullet \<Rightarrow> Bullet" where
  "moveBullet bullet =
     bullet\<lparr>bullet_x := bullet_x bullet + bullet_velocityX bullet,
            bullet_y := bullet_y bullet + bullet_velocityY bullet\<rparr>"

definition stepBullet :: "Bullet \<Rightarrow> BulletLoop \<Rightarrow> Bullet \<times> BulletLoop" where
  "stepBullet bullet0 l =
     (let bullet = moveBullet bullet0
      in if isBulletOutOfBounds bullet GAME_WIDTH GAME_HEIGHT
         then (bullet, l\<lparr>bl_bulletsToRemove := insert (bullet_id bullet) (bl_bulletsToRemove l)\<rparr>)
         else
           (let (walls', hit) = hitWalls bullet (gs_walls (bl_state l)) (bl_wallsToRemove l);
                l1 = (case hit of
                        None \<Rightarrow> l
                      | Some damageResult \<Rightarrow>
                          l\<lparr>bl_state := (bl_state l)\<lparr>gs_walls := walls'\<rparr>,
                            bl_results := bl_results l @ [damageResult],
                            bl_wallsToRemove :=
                              (if wdr_destroyed damageResult
                               then insert (wdr_wallId damageResult) (bl_wallsToRemove l)
                               else bl_wallsToRemove l),
                            bl_bulletsToRemove :=
                              insert (bullet_id bullet) (bl_bulletsToRemove l)\<rparr>)
            in if bullet_id bullet \<in> bl_bulletsToRemove l1 then (bullet, l1)
               else
                 (let (gameState', hitPlayer) =
                        hitPlayers bullet (gs_players (bl_state l1)) (bl_state l1)
                  in if hitPlayer
                     then (bullet, l1\<lparr>bl_state := gameState',
                                      bl_bulletsToRemove :=
                                        insert (bullet_id bullet) (bl_bulletsToRemove l1)\<rparr>)
                     else (bullet, l1))))"

fun bulletLoop :: "Bullet list \<Rightarrow> BulletLoop \<Rightarrow> Bullet list \<times> BulletLoop" where
  "bulletLoop [] l = ([], l)"
| "bulletLoop (bullet # rest) l =
     (let (bullet', l1) = stepBullet bullet l;
          (rest', l2) = bulletLoop rest l1
      in (bullet' # rest', l2))"

text \<open>\<open>updateBullets\<close>: the loop, then both filters. The second component is the new
  value of \<open>lastWallDamageResults\<close>.\<close>

definition updateBullets :: "GameState \<Rightarrow> GameState \<times> WallDamageResult list" where
  "updateBullets gameState =
     (let (moved, l) = bulletLoop (gs_bullets gameState)
                         \<lparr>bl_state = gameState, bl_bulletsToRemove = {},
                          bl_wallsToRemove = {}, bl_results = []\<rparr>
      in ((bl_state l)\<lparr>
            gs_bullets := filter (\<lambda>b. bullet_id b \<notin> bl_bulletsToRemove l) moved,
            gs_walls := filter (\<lambda>w. wall_id w \<notin> bl_wallsToRemove l) (gs_walls (bl_state l))\<rparr>,
          bl_results l))"

section \<open>CombatSystem: firing\<close>

text \<open>\<open>createBulletIdGenerator\<close> numbers the bullets; the counter is printed in decimal.\<close>

fun decimal :: "nat \<Rightarrow> string" where
  "decimal n =
     (if n < 10 then [char_of (48 + n)]
      else decimal (n div 10) @ [char_of (48 + n mod 10)])"

declare decimal.simps [simp del]

definition generateBulletId :: "nat \<Rightarrow> string \<times> nat" where
  "generateBulletId counter = (''bullet_'' @ decimal counter, counter + 1)"

text \<open>JavaScript's \<open>Math.round\<close> rounds half up: \<open>floor (x + 0.5)\<close>.\<close>

definition jsRound :: "real \<Rightarrow> real" where
  "jsRound v = real_of_int \<lfloor>v + 1 / 2\<rfloor>"

definition spawnOffset :: real where
  "spawnOffset = CAR_WIDTH / 2 + 10"

definition spawnPosition :: "CarState \<Rightarrow> real \<times> real" where
  "spawnPosition car = vadd (car_x car, car_y car) (fromAngle (car_angle car) spawnOffset)"

definition createBullet :: "CarState \<Rightarrow> WeaponType \<Rightarrow> nat \<Rightarrow> Bullet \<times> nat" where
  "createBullet car weaponType counter =
     (let config = WEAPON_CONFIGS weaponType;
          position = spawnPosition car;
          velocity = fromAngle (car_angle car) (wc_speed config);
          scaledDamage = jsRound (wc_damage config * car_bulletDamageMultiplier car);
          (newId, counter') = generateBulletId counter
      in (\<lparr>bullet_id = newId, bullet_ownerId = car_id car,
           bullet_x = fst position, bullet_y = snd position,
           bullet_velocityX = fst velocity, bullet_velocityY = snd velocity,
           bullet_angle = car_angle car, bullet_damage = scaledDamage,
           bullet_weaponType = weaponType, bullet_size = wc_size config\<rparr>, counter'))"

text \<open>The loop over walls in \<open>tryShootWeapon\<close>, which returns at the first wall the
  spawn square overlaps.\<close>

fun spawnBlocked :: "real \<times> real \<Rightarrow> real \<Rightarrow> Wall list \<Rightarrow> bool" where
  "spawnBlocked pos bsize [] = False"
| "spawnBlocked pos bsize (wall # rest) =
     (if rectangleIntersectsWall (fst pos) (snd pos) bsize bsize wall then True
      else spawnBlocked pos bsize rest)"

text \<open>The state \<open>tryShootWeapon\<close> can touch: the bullet list it is handed, the cooldown
  map it is handed (a \<open>Map\<close> from entity id to the time of the last shot) and the id
  counter. \<open>Date.now()\<close> is the parameter \<open>now\<close>.\<close>

record Firing =
  fr_bullets :: "Bullet list"
  fr_cooldownMap :: "string \<rightharpoonup> real"
  fr_counter :: nat

definition tryShootWeapon ::
  "real \<Rightarrow> CarState \<Rightarrow> Wall list \<Rightarrow> WeaponType \<Rightarrow> Firing \<Rightarrow> bool \<times> Firing" where
  "tryShootWeapon now car walls weaponType st =
     (let lastShoot = (case fr_cooldownMap st (car_id car) of None \<Rightarrow> 0 | Some t \<Rightarrow> t);
          config = WEAPON_CONFIGS weaponType
      in if now - lastShoot < wc_cooldown config then (False, st)
         else if spawnBlocked (spawnPosition car) (wc_size config) walls then (False, st)
         else
           (let (bullet, counter') = createBullet car weaponType (fr_counter st)
            in (True, \<lparr>fr_bullets = fr_bullets st @ [bullet],
                       fr_cooldownMap = (fr_cooldownMap st)(car_id car \<mapsto> now),
                       fr_counter = counter'\<rparr>)))"

text \<open>The combat system keeps one cooldown map per weapon; the two public entry points
  hand \<open>tryShootWeapon\<close> their own map.\<close>

record CombatSystem =
  cs_lastCannonShootTimes :: "string \<rightharpoonup> real"
  cs_lastMachineGunShootTimes :: "string \<rightharpoonup> real"
  cs_counter :: nat

definition tryShootCannon ::
  "real \<Rightarrow> CarState \<Rightarrow> Bullet list \<Rightarrow> Wall list \<Rightarrow> CombatSystem
     \<Rightarrow> bool \<times> Bullet list \<times> CombatSystem" where
  "tryShootCannon now car bullets walls cs =
     (let (ok, st) = tryShootWeapon now car walls Cannon
                       \<lparr>fr_bullets = bullets, fr_cooldownMap = cs_lastCannonShootTimes cs,
                        fr_counter = cs_counter cs\<rparr>
      in (ok, fr_bullets st,
          cs\<lparr>cs_lastCannonShootTimes := fr_cooldownMap st, cs_counter := fr_counter st\<rparr>))"

definition tryShootMachineGun ::
  "real \<Rightarrow> CarState \<Rightarrow> Bullet list \<Rightarrow> Wall list \<Rightarrow> CombatSystem
     \<Rightarrow> bool \<times> Bullet list \<times> CombatSystem" where
  "tryShootMachineGun now car bullets walls cs =
     (let (ok, st) = tryShootWeapon now car walls Machinegun
                       \<lparr>fr_bullets = bullets, fr_cooldownMap = cs_lastMachineGunShootTimes cs,
                        fr_counter = cs_counter cs\<rparr>
      in (ok, fr_bullets st,
          cs\<lparr>cs_lastMachineGunShootTimes := fr_cooldownMap st, cs_counter := fr_counter st\<rparr>))"

section \<open>PhysicsSystem\<close>













definition getRelativeSpeed :: "CarState \<Rightarrow> CarState \<Rightarrow> real" where
  "getRelativeSpeed car1 car2 =
     (let relVelX = car_velocityX car1 - car_velocityX car2;
          relVelY = car_velocityY car1 - car_velocityY car2
      in sqrt (relVelX\<^sup>2 + relVelY\<^sup>2))"

section \<open>CollisionSystem: car against car\<close>

text \<open>\<open>CollisionResult\<close> is \<open>{ occurred, damage? }\<close>; the optional field is an option.\<close>

record CollisionResult =
  cr_occurred :: bool
  cr_damage :: "real option"

text \<open>\<open>checkCarCollision\<close> divides the separation vector by the distance of the two
  centres. When the centres coincide JavaScript computes \<open>0 / 0\<close>, which is \<open>NaN\<close>, and
  writes it into both positions; the model returns the fault instead of a position.\<close>

datatype NumericFault = NaNPosition

definition applyBounce :: "CarState \<Rightarrow> CarState \<Rightarrow> CarState \<times> CarState" where
  "applyBounce car1 car2 =
     (let bounceMultiplier = 1 / 2;
          tempVx = car_velocityX car1 * bounceMultiplier;
          tempVy = car_velocityY car1 * bounceMultiplier
      in (car1\<lparr>car_velocityX := car_velocityX car2 * bounceMultiplier,
               car_velocityY := car_velocityY car2 * bounceMultiplier\<rparr>,
          car2\<lparr>car_velocityX := tempVx, car_velocityY := tempVy\<rparr>))"

definition checkCarCollision ::
  "CarState \<Rightarrow> CarState \<Rightarrow> NumericFault + (CollisionResult \<times> CarState \<times> CarState)" where
  "checkCarCollision car1 car2 =
     (let dx = car_x car1 - car_x car2;
          dy = car_y car1 - car_y car2;
          distance = sqrt (dx * dx + dy * dy);
          minDistance = CAR_WIDTH
      in if distance \<ge> minDistance
         then Inr (\<lparr>cr_occurred = False, cr_damage = None\<rparr>, car1, car2)
         else if distance = 0 then Inl NaNPosition
         else
           (let overlap = minDistance - distance;
                pushX = (dx / distance) * overlap * (1 / 2);
                pushY = (dy / distance) * overlap * (1 / 2);
                car1a = car1\<lparr>car_x := car_x car1 + pushX, car_y := car_y car1 + pushY\<rparr>;
                car2a = car2\<lparr>car_x := car_x car2 - pushX, car_y := car_y car2 - pushY\<rparr>;
                relativeSpeed = getRelativeSpeed car1a car2a;
                damage = (if relativeSpeed > COLLISION_DAMAGE_THRESHOLD
                          then real_of_int \<lfloor>relativeSpeed * COLLISION_DAMAGE_MULTIPLIER\<rfloor>
                          else 0);
                car1b = (if relativeSpeed > COLLISION_DAMAGE_THRESHOLD
                         then car1a\<lparr>car_health := car_health car1a - damage\<rparr> else car1a);
                car2b = (if relativeSpeed > COLLISION_DAMAGE_THRESHOLD
                         then car2a\<lparr>car_health := car_health car2a - damage\<rparr> else car2a);
                (car1c, car2c) = applyBounce car1b car2b
            in Inr (\<lparr>cr_occurred = True, cr_damage = Some damage\<rparr>, car1c, car2c)))"

text \<open>\<open>checkAllCarCollisions\<close> is two nested index loops over the array, \<open>j\<close> above \<open>i\<close>.
  The inner loop takes the car at \<open>i\<close> against every later car in turn; both cars are
  mutated in place, so each is threaded through. A fault ends the run.\<close>

fun collideWithRest ::
  "CarState \<Rightarrow> CarState list \<Rightarrow> CollisionResult list
     \<Rightarrow> NumericFault + (CarState \<times> CarState list \<times> CollisionResult list)" where
  "collideWithRest car1 [] results = Inr (car1, [], results)"
| "collideWithRest car1 (car2 # rest) results =
     (if car_health car1 \<le> 0 \<or> car_health car2 \<le> 0
      then (case collideWithRest car1 rest results of
              Inl fault \<Rightarrow> Inl fault
            | Inr (car1', rest', results') \<Rightarrow> Inr (car1', car2 # rest', results'))
      else (case checkCarCollision car1 car2 of
              Inl fault \<Rightarrow> Inl fault
            | Inr (result, car1a, car2a) \<Rightarrow>
                (case collideWithRest car1a rest
                        (if cr_occurred result then results @ [result] else results) of
                   Inl fault \<Rightarrow> Inl fault
                 | Inr (car1', rest', results') \<Rightarrow> Inr (car1', car2a # rest', results'))))"

lemma collideWithRest_length:
  "collideWithRest car1 cars results = Inr (car1', cars', results') \<Longrightarrow>
     length cars' = length cars"
proof (induction cars arbitrary: car1 results car1' cars' results')
  case Nil
  then show ?case by simp
next
  case (Cons car2 rest)
  then show ?case
    by (auto split: if_splits sum.splits prod.splits)
qed

function checkAllCarCollisionsFrom ::
  "CarState list \<Rightarrow> CollisionResult list \<Rightarrow> NumericFault + (CarState list \<times> CollisionResult list)" where
  "checkAllCarCollisionsFrom [] results = Inr ([], results)"
| "checkAllCarCollisionsFrom (car1 # rest) results =
     (case collideWithRest car1 rest results of
        Inl fault \<Rightarrow> Inl fault
      | Inr (car1', rest', results') \<Rightarrow>
          (case checkAllCarCollisionsFrom rest' results' of
             Inl fault \<Rightarrow> Inl fault
           | Inr (rest'', results'') \<Rightarrow> Inr (car1' # rest'', results'')))"
  by pat_completeness auto
termination
  by (relation "measure (\<lambda>(cars, results). length cars)")
     (auto dest: collideWithRest_length)

definition checkAllCarCollisions ::
  "CarState list \<Rightarrow> NumericFault + (CarState list \<times> CollisionResult list)" where
  "checkAllCarCollisions cars = checkAllCarCollisionsFrom cars []"

section \<open>GameStateManager and GameEngine: the win condition\<close>






section \<open>BoonManager\<close>

definition BOON_PICKUP_RADIUS :: real where "BOON_PICKUP_RADIUS = 35"
definition BOON_SPAWN_INTERVAL :: real where "BOON_SPAWN_INTERVAL = 5000"
definition BOON_MAX_COUNT :: nat where "BOON_MAX_COUNT = 3"
definition BOON_LIFETIME :: real where "BOON_LIFETIME = 15000"
definition BOON_SPAWN_MARGIN :: real where "BOON_SPAWN_MARGIN = 100"

definition PLAYER_SPAWN_POSITIONS :: "(real \<times> real) list" where
  "PLAYER_SPAWN_POSITIONS = [(150, GAME_HEIGHT / 2), (GAME_WIDTH - 150, GAME_HEIGHT / 2)]"

fun BOON_EFFECTS :: "BoonType \<Rightarrow> real" where
  "BOON_EFFECTS Health = 40"
| "BOON_EFFECTS Shield = 30"
| "BOON_EFFECTS Speed = 5000"
| "BOON_EFFECTS Damage = 8000"
| "BOON_EFFECTS Rapidfire = 6000"

definition BOON_SPAWN_WEIGHTS :: "(BoonType \<times> real) list" where
  "BOON_SPAWN_WEIGHTS =
     [(Health, 30), (Shield, 25), (Speed, 20), (Damage, 15), (Rapidfire, 10)]"

text \<open>\<open>Math.random\<close> is a sequence of numbers and the count of those already drawn:
  a call returns the next one. A function that never calls it leaves the count alone.\<close>

record Rng =
  rng_seq :: "nat \<Rightarrow> real"
  rng_drawn :: nat

definition mathRandom :: "Rng \<Rightarrow> real \<times> Rng" where
  "mathRandom rng = (rng_seq rng (rng_drawn rng), rng\<lparr>rng_drawn := rng_drawn rng + 1\<rparr>)"

record BoonManager =
  bm_boons :: "Boon list"
  bm_lastSpawnTime :: real
  bm_spawnInterval :: real

definition isValidSpawnLocation :: "real \<Rightarrow> real \<Rightarrow> Wall list \<Rightarrow> Boon list \<Rightarrow> bool" where
  "isValidSpawnLocation x y walls boons =
     (if list_ex (\<lambda>spawn. sqrt ((x - fst spawn) * (x - fst spawn)
                              + (y - snd spawn) * (y - snd spawn)) < BOON_SPAWN_MARGIN)
           PLAYER_SPAWN_POSITIONS then False
      else if list_ex (\<lambda>boon. sqrt ((x - boon_x boon) * (x - boon_x boon)
                                   + (y - boon_y boon) * (y - boon_y boon))
                                < BOON_PICKUP_RADIUS * 2) boons then False
      else if list_ex (\<lambda>wall.
                 (let wallLeft = wall_x wall - wall_width wall / 2 - BOON_SPAWN_MARGIN / 2;
                      wallRight = wall_x wall + wall_width wall / 2 + BOON_SPAWN_MARGIN / 2;
                      wallTop = wall_y wall - wall_height wall / 2 - BOON_SPAWN_MARGIN / 2;
                      wallBottom = wall_y wall + wall_height wall / 2 + BOON_SPAWN_MARGIN / 2
                  in x \<ge> wallLeft \<and> x \<le> wallRight \<and> y \<ge> wallTop \<and> y \<le> wallBottom)) walls
      then False
      else True)"

text \<open>\<open>selectRandomBoonType\<close>: the weights are walked in the order of the table.\<close>

fun pickWeighted :: "real \<Rightarrow> (BoonType \<times> real) list \<Rightarrow> BoonType" where
  "pickWeighted random [] = Health"
| "pickWeighted random ((boonType, weight) # rest) =
     (if random - weight \<le> 0 then boonType else pickWeighted (random - weight) rest)"

definition selectRandomBoonType :: "Rng \<Rightarrow> BoonType \<times> Rng" where
  "selectRandomBoonType rng =
     (let totalWeight = foldl (\<lambda>a b. a + b) 0 (map snd BOON_SPAWN_WEIGHTS);
          (r, rng1) = mathRandom rng
      in (pickWeighted (r * totalWeight) BOON_SPAWN_WEIGHTS, rng1))"

text \<open>\<open>trySpawnBoon\<close> tries up to 20 random places. The id of a new boon comes from
  \<open>generateId\<close>, which reads the clock and draws one more random number; its text is the
  parameter \<open>freshId\<close>. The calls of \<open>Date.now\<close> within one update are taken to return
  the same \<open>now\<close>.\<close>

fun trySpawnAttempts ::
  "nat \<Rightarrow> real \<Rightarrow> string \<Rightarrow> Wall list \<Rightarrow> Boon list \<Rightarrow> Rng \<Rightarrow> Boon option \<times> Rng" where
  "trySpawnAttempts 0 now freshId walls boons rng = (None, rng)"
| "trySpawnAttempts (Suc attemptsLeft) now freshId walls boons rng =
     (let (r1, rng1) = mathRandom rng;
          x = BOON_SPAWN_MARGIN + r1 * (GAME_WIDTH - BOON_SPAWN_MARGIN * 2);
          (r2, rng2) = mathRandom rng1;
          y = BOON_SPAWN_MARGIN + r2 * (GAME_HEIGHT - BOON_SPAWN_MARGIN * 2)
      in if isValidSpawnLocation x y walls boons
         then (let (boonType, rng3) = selectRandomBoonType rng2;
                   (r4, rng4) = mathRandom rng3
               in (Some \<lparr>boon_id = freshId, boon_x = x, boon_y = y, boon_type = boonType,
                         boon_spawnTime = now, boon_lifetime = BOON_LIFETIME\<rparr>, rng4))
         else trySpawnAttempts attemptsLeft now freshId walls boons rng2)"

definition trySpawnBoon ::
  "real \<Rightarrow> string \<Rightarrow> Wall list \<Rightarrow> Boon list \<Rightarrow> Rng \<Rightarrow> Boon option \<times> Rng" where
  "trySpawnBoon now freshId walls boons rng = trySpawnAttempts 20 now freshId walls boons rng"

text \<open>\<open>BoonManager.update\<close>.\<close>

definition boonUpdate ::
  "real \<Rightarrow> string \<Rightarrow> Wall list \<Rightarrow> BoonManager \<times> Rng \<Rightarrow> BoonManager \<times> Rng" where
  "boonUpdate now freshId walls st =
     (let bm = fst st; rng = snd st;
          remaining = filter (\<lambda>boon. now - boon_spawnTime boon < boon_lifetime boon) (bm_boons bm);
          bm1 = bm\<lparr>bm_boons := remaining\<rparr>
      in if length remaining < BOON_MAX_COUNT \<and> now - bm_lastSpawnTime bm \<ge> bm_spawnInterval bm
         then (case trySpawnBoon now freshId walls remaining rng of
                 (None, rng1) \<Rightarrow> (bm1, rng1)
               | (Some newBoon, rng1) \<Rightarrow>
                   (bm1\<lparr>bm_boons := remaining @ [newBoon], bm_lastSpawnTime := now\<rparr>, rng1))
         else (bm1, rng))"

record BoonPickupEvent =
  bpe_playerId :: string
  bpe_boon :: Boon
  bpe_effectValue :: real

text \<open>The loop of \<open>checkPickup\<close>: the first boon in reach is spliced out of the array.\<close>

fun pickupFirst :: "CarState \<Rightarrow> Boon list \<Rightarrow> Boon option \<times> Boon list" where
  "pickupFirst car [] = (None, [])"
| "pickupFirst car (boon # rest) =
     (let dx = car_x car - boon_x boon;
          dy = car_y car - boon_y boon;
          dist = sqrt (dx * dx + dy * dy)
      in if dist < BOON_PICKUP_RADIUS + CAR_WIDTH / 2 then (Some boon, rest)
         else (let (found, rest') = pickupFirst car rest in (found, boon # rest')))"

definition checkPickup :: "CarState \<Rightarrow> BoonManager \<Rightarrow> BoonPickupEvent option \<times> BoonManager" where
  "checkPickup car bm =
     (if car_health car \<le> 0 then (None, bm)
      else (case pickupFirst car (bm_boons bm) of
              (None, _) \<Rightarrow> (None, bm)
            | (Some boon, boons') \<Rightarrow>
                (Some \<lparr>bpe_playerId = car_id car, bpe_boon = boon,
                       bpe_effectValue = BOON_EFFECTS (boon_type boon)\<rparr>,
                 bm\<lparr>bm_boons := boons'\<rparr>)))"


text \<open>\<open>removeBoon\<close>, \<open>clear\<close> and \<open>reset\<close>, the other writers of the boon list.\<close>

definition removeBoon :: "string \<Rightarrow> BoonManager \<Rightarrow> BoonManager" where
  "removeBoon boonId bm = bm\<lparr>bm_boons := filter (\<lambda>b. boon_id b \<noteq> boonId) (bm_boons bm)\<rparr>"

definition boonClear :: "BoonManager \<Rightarrow> BoonManager" where
  "boonClear bm = bm\<lparr>bm_boons := []\<rparr>"

definition boonReset :: "BoonManager \<Rightarrow> BoonManager" where
  "boonReset bm = bm\<lparr>bm_boons := [], bm_lastSpawnTime := 0\<rparr>"

section \<open>RoomManager: the matchmaking queue\<close>

text \<open>A socket is an object identity. The queue is a JavaScript \<open>Map\<close> from socket to
  \<open>QueuedPlayer\<close>, which keeps insertion order: \<open>set\<close> on a present key replaces the
  value in place, on a new key appends; \<open>delete\<close> removes the entry.\<close>

type_synonym socket = nat

record QueuedPlayer =
  qp_ws :: socket
  qp_joinedAt :: real

fun jsMapSet :: "'k \<Rightarrow> 'v \<Rightarrow> ('k \<times> 'v) list \<Rightarrow> ('k \<times> 'v) list" where
  "jsMapSet k v [] = [(k, v)]"
| "jsMapSet k v ((k', v') # rest) =
     (if k' = k then (k, v) # rest else (k', v') # jsMapSet k v rest)"

definition jsMapDelete :: "'k \<Rightarrow> ('k \<times> 'v) list \<Rightarrow> ('k \<times> 'v) list" where
  "jsMapDelete k m = filter (\<lambda>kv. fst kv \<noteq> k) m"

definition jsMapHas :: "'k \<Rightarrow> ('k \<times> 'v) list \<Rightarrow> bool" where
  "jsMapHas k m = (map_of m k \<noteq> None)"

text \<open>The rest of the room manager (rooms, the player-to-room map) is the type variable
  \<open>'r\<close>. \<open>createRoom\<close> and \<open>joinRoom\<close> are methods of the same object and are taken as
  parameters here: they get the whole manager and return their result (\<open>None\<close> for
  \<open>null\<close>) with the manager they leave behind. In the source neither of them mentions
  the queue.\<close>

record 'r RoomManager =
  rm_matchmakingQueue :: "(socket \<times> QueuedPlayer) list"
  rm_rest :: 'r

record MatchResult =
  mr_matched :: bool
  mr_roomCode :: "string option"
  mr_playerId :: "string option"

type_synonym 'r createRoomT =
  "socket \<Rightarrow> 'r RoomManager \<Rightarrow> (string \<times> string) option \<times> 'r RoomManager"

type_synonym 'r joinRoomT =
  "socket \<Rightarrow> string \<Rightarrow> 'r RoomManager \<Rightarrow> (string \<times> nat) option \<times> 'r RoomManager"

text \<open>The search loop of \<open>tryMatchPlayers\<close>: the first queued socket that is not the
  new one.\<close>

fun findOther :: "socket \<Rightarrow> (socket \<times> QueuedPlayer) list \<Rightarrow> (socket \<times> QueuedPlayer) option" where
  "findOther newPlayerWs [] = None"
| "findOther newPlayerWs ((ws, player) # rest) =
     (if ws \<noteq> newPlayerWs then Some (ws, player) else findOther newPlayerWs rest)"

definition tryMatchPlayers ::
  "'r createRoomT \<Rightarrow> 'r joinRoomT \<Rightarrow> real \<Rightarrow> socket \<Rightarrow> 'r RoomManager
     \<Rightarrow> MatchResult \<times> 'r RoomManager" where
  "tryMatchPlayers createRoom joinRoom now newPlayerWs rm =
     (let notMatched = \<lparr>mr_matched = False, mr_roomCode = None, mr_playerId = None\<rparr>
      in if length (rm_matchmakingQueue rm) < 2 then (notMatched, rm)
         else (case findOther newPlayerWs (rm_matchmakingQueue rm) of
                 None \<Rightarrow> (notMatched, rm)
               | Some (otherWs, otherPlayer) \<Rightarrow>
                   (let rm1 = rm\<lparr>rm_matchmakingQueue :=
                                    jsMapDelete otherWs
                                      (jsMapDelete newPlayerWs (rm_matchmakingQueue rm))\<rparr>
                    in case createRoom otherWs rm1 of
                         (None, rm2) \<Rightarrow>
                           (notMatched,
                            rm2\<lparr>rm_matchmakingQueue :=
                                  jsMapSet otherWs \<lparr>qp_ws = otherWs, qp_joinedAt = now\<rparr>
                                    (jsMapSet newPlayerWs
                                       \<lparr>qp_ws = newPlayerWs, qp_joinedAt = now\<rparr>
                                       (rm_matchmakingQueue rm2))\<rparr>)
                       | (Some (roomCode, hostId), rm2) \<Rightarrow>
                           (case joinRoom newPlayerWs roomCode rm2 of
                              (None, rm3) \<Rightarrow> (notMatched, rm3)
                            | (Some (playerId, playerCount), rm3) \<Rightarrow>
                                (\<lparr>mr_matched = True, mr_roomCode = Some roomCode,
                                  mr_playerId = Some playerId\<rparr>, rm3)))))"

definition joinMatchmaking ::
  "'r createRoomT \<Rightarrow> 'r joinRoomT \<Rightarrow> real \<Rightarrow> socket \<Rightarrow> 'r RoomManager
     \<Rightarrow> MatchResult \<times> 'r RoomManager" where
  "joinMatchmaking createRoom joinRoom now ws rm =
     (if jsMapHas ws (rm_matchmakingQueue rm)
      then (\<lparr>mr_matched = False, mr_roomCode = None, mr_playerId = None\<rparr>, rm)
      else tryMatchPlayers createRoom joinRoom now ws
             (rm\<lparr>rm_matchmakingQueue :=
                   jsMapSet ws \<lparr>qp_ws = ws, qp_joinedAt = now\<rparr> (rm_matchmakingQueue rm)\<rparr>))"

definition leaveMatchmaking :: "socket \<Rightarrow> 'r RoomManager \<Rightarrow> 'r RoomManager" where
  "leaveMatchmaking ws rm =
     (if jsMapHas ws (rm_matchmakingQueue rm)
      then rm\<lparr>rm_matchmakingQueue := jsMapDelete ws (rm_matchmakingQueue rm)\<rparr>
      else rm)"

definition isInMatchmaking :: "socket \<Rightarrow> 'r RoomManager \<Rightarrow> bool" where
  "isInMatchmaking ws rm = jsMapHas ws (rm_matchmakingQueue rm)"

section \<open>CollisionSystem: car against wall\<close>





section \<open>GameEngine: the tick from the bullet update on\<close>







section \<open>BoonManager as an object\<close>

text \<open>The boon list is private to \<open>BoonManager\<close>; \<open>getBoons\<close> hands the array out, but the
  game state only stores the reference and replaces it. So the list changes through the
  five mutating methods only, and a life of the object is a list of calls. The
  constructor calls \<open>reset\<close>.\<close>

datatype BoonOp =
    OpUpdate real string "Wall list"
  | OpCheckPickup CarState
  | OpRemoveBoon string
  | OpClear
  | OpReset

fun boonStep :: "BoonOp \<Rightarrow> BoonManager \<times> Rng \<Rightarrow> BoonManager \<times> Rng" where
  "boonStep (OpUpdate now freshId walls) st = boonUpdate now freshId walls st"
| "boonStep (OpCheckPickup car) st = (snd (checkPickup car (fst st)), snd st)"
| "boonStep (OpRemoveBoon boonId) st = (removeBoon boonId (fst st), snd st)"
| "boonStep OpClear st = (boonClear (fst st), snd st)"
| "boonStep OpReset st = (boonReset (fst st), snd st)"

definition boonRun :: "BoonOp list \<Rightarrow> BoonManager \<times> Rng \<Rightarrow> BoonManager \<times> Rng" where
  "boonRun ops st = fold boonStep ops st"

definition newBoonManager :: BoonManager where
  "newBoonManager =
     boonReset \<lparr>bm_boons = [], bm_lastSpawnTime = 0, bm_spawnInterval = BOON_SPAWN_INTERVAL\<rparr>"

section \<open>Concrete inputs\<close>

text \<open>A cannon shell of damage 35 one tick away from the centre wall, which is metal
  (resistance 0.5, health 300).\<close>

definition heavyShell :: Bullet where
  "heavyShell =
     \<lparr>bullet_id = ''bullet_0'', bullet_ownerId = ''p1'', bullet_x = 580, bullet_y = 400,
      bullet_velocityX = 12, bullet_velocityY = 0, bullet_angle = 0, bullet_damage = 35,
      bullet_weaponType = Cannon, bullet_size = 10\<rparr>"



text \<open>A tier 3 car as \<open>EntityFactory.createCar\<close> builds it (full health 100, full shield
  50, at rest). The boost fields play no part in what follows.\<close>

definition hawk :: "string \<Rightarrow> real \<Rightarrow> real \<Rightarrow> real \<Rightarrow> CarState" where
  "hawk pid x y angle =
     \<lparr>car_id = pid, car_x = x, car_y = y, car_angle = angle,
      car_velocityX = 0, car_velocityY = 0,
      car_health = 100, car_maxHealth = 100, car_shield = 50, car_maxShield = 50,
      car_shieldRechargeTimer = 0, car_score = 0, car_isBoosting = False,
      car_boostFuel = 100, car_maxBoostFuel = 100, car_boostRechargeTimer = 0,
      car_maxSpeed = 8, car_boostSpeed = 12, car_acceleration = 3 / 10,
      car_turnSpeed = 6 / 100, car_bulletDamageMultiplier = 1\<rparr>"


text \<open>The shell with no wall, arriving on top of its own shooter and of a car that is
  already dead.\<close>

definition ownShot :: GameState where
  "ownShot =
     \<lparr>gs_players = [(''p1'', hawk ''p1'' 592 400 0),
                     (''p2'', (hawk ''p2'' 592 400 0)\<lparr>car_health := - 5, car_shield := 0\<rparr>)],
      gs_bullets = [heavyShell], gs_walls = [], gs_boons = [],
      gs_gameStatus = Playing, gs_winner = None\<rparr>"

definition startLoop :: "GameState \<Rightarrow> BulletLoop" where
  "startLoop gs =
     \<lparr>bl_state = gs, bl_bulletsToRemove = {}, bl_wallsToRemove = {}, bl_results = []\<rparr>"

text \<open>Scenario C of the spec: a player at 10 health and 0 shield, and a projectile of
  damage 15, fired by the other player, one tick away from it.\<close>

definition finisher :: Bullet where
  "finisher =
     \<lparr>bullet_id = ''bullet_7'', bullet_ownerId = ''p1'', bullet_x = 553, bullet_y = 400,
      bullet_velocityX = 12, bullet_velocityY = 0, bullet_angle = 0, bullet_damage = 15,
      bullet_weaponType = Cannon, bullet_size = 10\<rparr>"

definition weakened :: "CarState \<Rightarrow> CarState" where
  "weakened c = c\<lparr>car_health := 10, car_shield := 0\<rparr>"

definition scenarioC :: GameState where
  "scenarioC =
     \<lparr>gs_players = [(''p1'', hawk ''p1'' 150 400 0), (''p2'', weakened (hawk ''p2'' 565 400 0))],
      gs_bullets = [finisher], gs_walls = [], gs_boons = [],
      gs_gameStatus = Playing, gs_winner = None\<rparr>"









text \<open>Two cars for \<open>checkCarCollision\<close>: \<open>ramA\<close> moving right at speed 4, and a second
  car moving up at speed 3, once with its centre exactly \<open>CAR_WIDTH\<close> away (\<open>ramB\<close>) and
  once 30 away (\<open>ramC\<close>). The relative speed is 5.\<close>

definition ramA :: CarState where
  "ramA = (hawk ''p1'' 600 400 0)\<lparr>car_velocityX := 4\<rparr>"

definition ramB :: CarState where
  "ramB = (hawk ''p2'' 630 440 0)\<lparr>car_velocityY := - 3\<rparr>"

definition ramC :: CarState where
  "ramC = (hawk ''p2'' 618 424 0)\<lparr>car_velocityY := - 3\<rparr>"

text \<open>A boon manager holding the maximum of three boons, spawned at 1000, 6000 and
  11000, and a \<open>Math.random\<close> that always returns \<open>1/2\<close>, which places a new boon in
  the centre of the arena. \<open>refilled\<close> is the manager after an update at 16000: the first
  boon has expired and a new one is spawned in the same update.\<close>

definition boonAt :: "string \<Rightarrow> real \<Rightarrow> real \<Rightarrow> real \<Rightarrow> Boon" where
  "boonAt bid x y spawned =
     \<lparr>boon_id = bid, boon_x = x, boon_y = y, boon_type = Health,
      boon_spawnTime = spawned, boon_lifetime = BOON_LIFETIME\<rparr>"

definition fullManager :: BoonManager where
  "fullManager =
     \<lparr>bm_boons = [boonAt ''boon_a'' 300 200 1000, boonAt ''boon_b'' 600 600 6000,
                   boonAt ''boon_c'' 900 200 11000],
      bm_lastSpawnTime = 11000, bm_spawnInterval = BOON_SPAWN_INTERVAL\<rparr>"

definition steadyRng :: Rng where
  "steadyRng = \<lparr>rng_seq = (\<lambda>n. 1 / 2), rng_drawn = 0\<rparr>"

definition refilled :: BoonManager where
  "refilled =
     \<lparr>bm_boons = [boonAt ''boon_b'' 600 600 6000, boonAt ''boon_c'' 900 200 11000,
                   (boonAt ''boon_d'' 600 400 16000)\<lparr>boon_type := Shield\<rparr>],
      bm_lastSpawnTime = 16000, bm_spawnInterval = BOON_SPAWN_INTERVAL\<rparr>"

text \<open>A room manager to run the matchmaking on: the rooms are a map from room code to the
  sockets connected, \<open>openRoom\<close> always opens the room \<open>ARENA1\<close> for its host, and
  \<open>enterRoom\<close> fails on an unknown or a full room, as \<open>joinRoom\<close> does. One socket is
  waiting in the queue.\<close>

definition openRoom :: "(string \<times> socket list) list createRoomT" where
  "openRoom hostWs rm =
     (Some (''ARENA1'', ''player1''), rm\<lparr>rm_rest := jsMapSet ''ARENA1'' [hostWs] (rm_rest rm)\<rparr>)"

definition enterRoom :: "(string \<times> socket list) list joinRoomT" where
  "enterRoom ws roomCode rm =
     (case map_of (rm_rest rm) roomCode of
        None \<Rightarrow> (None, rm)
      | Some connections \<Rightarrow>
          if 2 \<le> length connections then (None, rm)
          else (Some (''player2'', length connections + 1),
                rm\<lparr>rm_rest := jsMapSet roomCode (connections @ [ws]) (rm_rest rm)\<rparr>))"

definition oneWaiting :: "(string \<times> socket list) list RoomManager" where
  "oneWaiting = \<lparr>rm_matchmakingQueue = [(1, \<lparr>qp_ws = 1, qp_joinedAt = 100\<rparr>)], rm_rest = []\<rparr>"

section \<open>Invariants used in the proofs\<close>


text \<open>The three tests the player loop of \<open>updateBullets\<close> makes of a candidate
  \<open>(playerId, target)\<close> before it applies damage: not the owner, alive, inside the hit
  box.\<close>

definition eligibleTarget :: "Bullet \<Rightarrow> string \<times> CarState \<Rightarrow> bool" where
  "eligibleTarget b p \<longleftrightarrow>
     fst p \<noteq> bullet_ownerId b \<and> 0 < car_health (snd p) \<and> checkBulletCarCollision b (snd p)"

text \<open>The bounds the code does keep on a car: shield between 0 and its maximum, health
  at most its maximum.\<close>

definition carInRange :: "CarState \<Rightarrow> bool" where
  "carInRange c \<longleftrightarrow>
     0 \<le> car_shield c \<and> car_shield c \<le> car_maxShield c \<and> car_health c \<le> car_maxHealth c"

text \<open>Names for two quantities of \<open>checkCarCollision\<close>: the distance of the centres and
  the damage of the impact. The relative speed reads velocities only, so it is the same
  before and after the push.\<close>

definition centreDistance :: "CarState \<Rightarrow> CarState \<Rightarrow> real" where
  "centreDistance car1 car2 =
     sqrt ((car_x car1 - car_x car2) * (car_x car1 - car_x car2)
           + (car_y car1 - car_y car2) * (car_y car1 - car_y car2))"

definition collisionDamage :: "CarState \<Rightarrow> CarState \<Rightarrow> real" where
  "collisionDamage car1 car2 =
     (if getRelativeSpeed car1 car2 > COLLISION_DAMAGE_THRESHOLD
      then real_of_int \<lfloor>getRelativeSpeed car1 car2 * COLLISION_DAMAGE_MULTIPLIER\<rfloor>
      else 0)"


text \<open>The filter of \<open>BoonManager.update\<close>: a boon stays while
  \<open>now - boon.spawnTime < boon.lifetime\<close>.\<close>

definition unexpired :: "real \<Rightarrow> Boon \<Rightarrow> bool" where
  "unexpired now boon \<longleftrightarrow> now - boon_spawnTime boon < boon_lifetime boon"

text \<open>A list of calls that are all \<open>update\<close>, at times when no boon of \<open>bm\<close> has
  expired: no pickup, no removal, no expiry.\<close>

fun updatesOnly :: "BoonManager \<Rightarrow> BoonOp list \<Rightarrow> bool" where
  "updatesOnly bm [] = True"
| "updatesOnly bm (OpUpdate now freshId walls # ops) =
     (list_all (unexpired now) (bm_boons bm) \<and> updatesOnly bm ops)"
| "updatesOnly bm (_ # ops) = False"

section \<open>Facts about the bullet update\<close>

lemma moveBullet_id [simp]: "bullet_id (moveBullet bullet) = bullet_id bullet"
  by (simp add: moveBullet_def)

lemma moveBullet_owner [simp]: "bullet_ownerId (moveBullet bullet) = bullet_ownerId bullet"
  by (simp add: moveBullet_def)

lemma moveBullet_damage [simp]: "bullet_damage (moveBullet bullet) = bullet_damage bullet"
  by (simp add: moveBullet_def)

lemma applyWallDamage_id: "wall_id (fst (applyWallDamage bullet wall)) = wall_id wall"
  by (simp add: applyWallDamage_def Let_def)

lemma applyWallDamage_id_pair:
  "applyWallDamage bullet wall = (w', r) \<Longrightarrow> wall_id w' = wall_id wall"
  using applyWallDamage_id[of bullet wall] by simp


lemma hitWalls_None:
  "hitWalls bullet ws rem = (ws', None) \<Longrightarrow> ws' = ws"
  by (induction ws arbitrary: ws') (auto split: if_splits prod.splits)



lemma stepBullet_fst: "fst (stepBullet bullet l) = moveBullet bullet"
  by (simp add: stepBullet_def Let_def split: prod.splits option.splits)




lemma bulletLoop_snd_Cons:
  "snd (bulletLoop (b # bs) l) = snd (bulletLoop bs (snd (stepBullet b l)))"
  by (simp add: Let_def split: prod.splits)

lemma bulletLoop_fst: "fst (bulletLoop bs l) = map moveBullet bs"
proof (induction bs arbitrary: l)
  case Nil
  then show ?case by simp
next
  case (Cons b bs)
  have "fst (bulletLoop (b # bs) l) =
          fst (stepBullet b l) # fst (bulletLoop bs (snd (stepBullet b l)))"
    by (simp add: Let_def split: prod.splits)
  then show ?case by (simp add: stepBullet_fst Cons.IH)
qed






section \<open>Facts about damage to players\<close>

lemma updatePlayer_keys [simp]: "map fst (updatePlayer k f ps) = map fst ps"
  by (induction ps) (auto simp: updatePlayer_def)

lemma updatePlayer_map:
  "updatePlayer k f ps = map (\<lambda>(pid, c). (pid, if pid = k then f c else c)) ps"
  by (induction ps) (auto simp: updatePlayer_def)

lemma updatePlayer_mem:
  "(pid, c) \<in> set ps \<Longrightarrow> (pid, if pid = k then f c else c) \<in> set (updatePlayer k f ps)"
  unfolding updatePlayer_map by force

lemma updatePlayer_absent:
  "k \<notin> fst ` set ps \<Longrightarrow> updatePlayer k f ps = ps"
  by (induction ps) (auto simp: updatePlayer_def)

lemma applyDamage_players:
  "gs_players (applyDamage b tid t gs) =
     updatePlayer (bullet_ownerId b) (awardShooter b (damageTarget b t))
       (updatePlayer tid (\<lambda>_. damageTarget b t) (gs_players gs))"
proof (cases "map_of (updatePlayer tid (\<lambda>_. damageTarget b t) (gs_players gs)) (bullet_ownerId b)")
  case None
  then have "bullet_ownerId b \<notin> fst ` set (updatePlayer tid (\<lambda>_. damageTarget b t) (gs_players gs))"
    by (simp add: map_of_eq_None_iff)
  then show ?thesis using None
    by (simp add: applyDamage_def Let_def updatePlayer_absent)
next
  case (Some a)
  then show ?thesis by (simp add: applyDamage_def Let_def)
qed

lemma applyDamage_other:
  "gs_walls (applyDamage b tid t gs) = gs_walls gs"
  "gs_bullets (applyDamage b tid t gs) = gs_bullets gs"
  "gs_boons (applyDamage b tid t gs) = gs_boons gs"
  "gs_gameStatus (applyDamage b tid t gs) = gs_gameStatus gs"
  "gs_winner (applyDamage b tid t gs) = gs_winner gs"
  by (simp_all add: applyDamage_def Let_def split: option.splits)

lemma hitPlayers_find:
  "hitPlayers b ps gs =
     (case find (\<lambda>(pid, t). pid \<noteq> bullet_ownerId b \<and> 0 < car_health t \<and>
                             checkBulletCarCollision b t) ps of
        None \<Rightarrow> (gs, False)
      | Some (pid, t) \<Rightarrow> (applyDamage b pid t gs, True))"
proof (induction ps)
  case Nil
  then show ?case by simp
next
  case (Cons p ps)
  then show ?case by (cases p) (simp add: not_le)
qed

lemma awardShooter_fields [simp]:
  "car_health (awardShooter b t c) = car_health c"
  "car_shield (awardShooter b t c) = car_shield c"
  "car_shieldRechargeTimer (awardShooter b t c) = car_shieldRechargeTimer c"
  "car_maxHealth (awardShooter b t c) = car_maxHealth c"
  "car_maxShield (awardShooter b t c) = car_maxShield c"
  "car_id (awardShooter b t c) = car_id c"
  by (simp_all add: awardShooter_def Let_def)

lemma damageTarget_health:
  "0 \<le> car_shield t \<Longrightarrow>
   car_health (damageTarget b t) = car_health t - max 0 (bullet_damage b - car_shield t)"
  by (auto simp: damageTarget_def Let_def min_def max_def)

lemma damageTarget_shield:
  "0 \<le> car_shield t \<Longrightarrow> 0 \<le> bullet_damage b \<Longrightarrow>
   car_shield (damageTarget b t) = max 0 (car_shield t - bullet_damage b)"
  by (auto simp: damageTarget_def Let_def min_def max_def)

lemma damageTarget_fields [simp]:
  "car_maxHealth (damageTarget b t) = car_maxHealth t"
  "car_maxShield (damageTarget b t) = car_maxShield t"
  "car_id (damageTarget b t) = car_id t"
  "car_score (damageTarget b t) = car_score t"
  "car_shieldRechargeTimer (damageTarget b t) = SHIELD_RECHARGE_DELAY"
  by (simp_all add: damageTarget_def Let_def)


lemma hitPlayers_eligible:
  "hitPlayers b ps gs =
     (case find (eligibleTarget b) ps of
        None \<Rightarrow> (gs, False)
      | Some p \<Rightarrow> (applyDamage b (fst p) (snd p) gs, True))"
proof -
  have "eligibleTarget b = (\<lambda>(pid, t). pid \<noteq> bullet_ownerId b \<and> 0 < car_health t \<and>
                             checkBulletCarCollision b t)"
    by (auto simp: eligibleTarget_def fun_eq_iff)
  then show ?thesis
    by (simp add: hitPlayers_find split: option.splits)
qed

lemma stepBullet_snd:
  "snd (stepBullet bullet l) =
     (if isBulletOutOfBounds (moveBullet bullet) GAME_WIDTH GAME_HEIGHT
      then l\<lparr>bl_bulletsToRemove := insert (bullet_id bullet) (bl_bulletsToRemove l)\<rparr>
      else case hitWalls (moveBullet bullet) (gs_walls (bl_state l)) (bl_wallsToRemove l) of
        (walls', Some r) \<Rightarrow>
          l\<lparr>bl_state := (bl_state l)\<lparr>gs_walls := walls'\<rparr>,
            bl_results := bl_results l @ [r],
            bl_wallsToRemove := (if wdr_destroyed r then insert (wdr_wallId r) (bl_wallsToRemove l)
                                 else bl_wallsToRemove l),
            bl_bulletsToRemove := insert (bullet_id bullet) (bl_bulletsToRemove l)\<rparr>
      | (walls', None) \<Rightarrow>
          if bullet_id bullet \<in> bl_bulletsToRemove l then l
          else (case find (eligibleTarget (moveBullet bullet)) (gs_players (bl_state l)) of
                  None \<Rightarrow> l
                | Some p \<Rightarrow>
                    l\<lparr>bl_state := applyDamage (moveBullet bullet) (fst p) (snd p) (bl_state l),
                      bl_bulletsToRemove := insert (bullet_id bullet) (bl_bulletsToRemove l)\<rparr>))"
  by (simp add: stepBullet_def Let_def hitPlayers_eligible split: prod.splits option.splits)

lemma find_Some_mem: "find P xs = Some x \<Longrightarrow> x \<in> set xs \<and> P x"
  by (induction xs) (auto split: if_splits)

lemma find_Some_split:
  "find P xs = Some x \<Longrightarrow> \<exists>pre post. xs = pre @ x # post \<and> (\<forall>y \<in> set pre. \<not> P y) \<and> P x"
proof (induction xs)
  case Nil
  then show ?case by simp
next
  case (Cons a xs)
  show ?case
  proof (cases "P a")
    case True
    with Cons.prems have "x = a" by simp
    with True show ?thesis by (intro exI[of _ "[]"] exI[of _ xs]) simp
  next
    case False
    with Cons.prems have "find P xs = Some x" by simp
    from Cons.IH[OF this] obtain pre post where
      "xs = pre @ x # post" "\<forall>y \<in> set pre. \<not> P y" "P x" by blast
    with False show ?thesis by (intro exI[of _ "a # pre"] exI[of _ post]) simp
  qed
qed

lemma stepBullet_players_cases:
  "gs_players (bl_state (snd (stepBullet bullet l))) = gs_players (bl_state l) \<or>
   (\<exists>p \<in> set (gs_players (bl_state l)). eligibleTarget (moveBullet bullet) p \<and>
      gs_players (bl_state (snd (stepBullet bullet l))) =
        gs_players (applyDamage (moveBullet bullet) (fst p) (snd p) (bl_state l)))"
  unfolding stepBullet_snd
  by (auto split: prod.splits option.splits dest: find_Some_mem)


lemma stepBullet_keys:
  "map fst (gs_players (bl_state (snd (stepBullet bullet l)))) = map fst (gs_players (bl_state l))"
  using stepBullet_players_cases[of bullet l]
  by (auto simp: applyDamage_players)

lemma applyDamage_spares:
  assumes d: "distinct (map fst (gs_players gs))"
    and p: "p \<in> set (gs_players gs)" and e: "eligibleTarget b p"
    and c: "(pid, c) \<in> set (gs_players gs)"
    and s: "pid = bullet_ownerId b \<or> car_health c \<le> 0"
  shows "(pid, if pid = bullet_ownerId b then awardShooter b (damageTarget b (snd p)) c else c)
           \<in> set (gs_players (applyDamage b (fst p) (snd p) gs))"
proof -
  have ne: "pid \<noteq> fst p"
  proof
    assume eq: "pid = fst p"
    with d p c have "c = snd p"
      by (metis eq_key_imp_eq_value prod.collapse)
    with e s eq show False by (auto simp: eligibleTarget_def)
  qed
  have "(pid, c) \<in> set (updatePlayer (fst p) (\<lambda>_. damageTarget b (snd p)) (gs_players gs))"
    using updatePlayer_mem[OF c, of "fst p" "\<lambda>_. damageTarget b (snd p)"] ne by simp
  from updatePlayer_mem[OF this, of "bullet_ownerId b" "awardShooter b (damageTarget b (snd p))"]
  show ?thesis by (simp add: applyDamage_players)
qed

lemma stepBullet_spares:
  assumes d: "distinct (map fst (gs_players (bl_state l)))"
    and c: "(pid, c) \<in> set (gs_players (bl_state l))"
    and s: "pid = bullet_ownerId bullet \<or> car_health c \<le> 0"
  shows "\<exists>c'. (pid, c') \<in> set (gs_players (bl_state (snd (stepBullet bullet l)))) \<and>
           car_health c' = car_health c \<and> car_shield c' = car_shield c \<and>
           car_shieldRechargeTimer c' = car_shieldRechargeTimer c \<and>
           (pid \<noteq> bullet_ownerId bullet \<longrightarrow> c' = c)"
  using stepBullet_players_cases[of bullet l]
proof
  assume "gs_players (bl_state (snd (stepBullet bullet l))) = gs_players (bl_state l)"
  with c show ?thesis by auto
next
  assume "\<exists>p \<in> set (gs_players (bl_state l)). eligibleTarget (moveBullet bullet) p \<and>
      gs_players (bl_state (snd (stepBullet bullet l))) =
        gs_players (applyDamage (moveBullet bullet) (fst p) (snd p) (bl_state l))"
  then obtain p where p: "p \<in> set (gs_players (bl_state l))"
    and e: "eligibleTarget (moveBullet bullet) p"
    and eq: "gs_players (bl_state (snd (stepBullet bullet l))) =
        gs_players (applyDamage (moveBullet bullet) (fst p) (snd p) (bl_state l))"
    by blast
  from s have s': "pid = bullet_ownerId (moveBullet bullet) \<or> car_health c \<le> 0" by simp
  from applyDamage_spares[OF d p e c s']
  show ?thesis unfolding eq
    by (intro exI[of _ "if pid = bullet_ownerId bullet
                        then awardShooter (moveBullet bullet) (damageTarget (moveBullet bullet) (snd p)) c
                        else c"]) simp
qed

lemma bulletLoop_spares:
  assumes "distinct (map fst (gs_players (bl_state l)))"
    and "(pid, c) \<in> set (gs_players (bl_state l))"
    and "car_health c \<le> 0 \<or> (\<forall>b \<in> set bs. bullet_ownerId b = pid)"
  shows "\<exists>c'. (pid, c') \<in> set (gs_players (bl_state (snd (bulletLoop bs l)))) \<and>
           car_health c' = car_health c \<and> car_shield c' = car_shield c \<and>
           car_shieldRechargeTimer c' = car_shieldRechargeTimer c"
  using assms
proof (induction bs arbitrary: l c)
  case Nil
  then show ?case by auto
next
  case (Cons b bs)
  let ?l1 = "snd (stepBullet b l)"
  have s: "pid = bullet_ownerId b \<or> car_health c \<le> 0"
    using Cons.prems(3) by auto
  from stepBullet_spares[OF Cons.prems(1,2) s] obtain c1 where
    c1: "(pid, c1) \<in> set (gs_players (bl_state ?l1))"
        "car_health c1 = car_health c" "car_shield c1 = car_shield c"
        "car_shieldRechargeTimer c1 = car_shieldRechargeTimer c"
    by blast
  have d1: "distinct (map fst (gs_players (bl_state ?l1)))"
    using Cons.prems(1) by (simp add: stepBullet_keys)
  have s1: "car_health c1 \<le> 0 \<or> (\<forall>b \<in> set bs. bullet_ownerId b = pid)"
    using Cons.prems(3) c1(2) by auto
  from Cons.IH[OF d1 c1(1) s1] c1(2-4)
  show ?case by (simp only: bulletLoop_snd_Cons)
qed

lemma updateBullets_players:
  "gs_players (fst (updateBullets gs)) =
     gs_players (bl_state (snd (bulletLoop (gs_bullets gs)
       \<lparr>bl_state = gs, bl_bulletsToRemove = {}, bl_wallsToRemove = {}, bl_results = []\<rparr>)))"
  by (simp add: updateBullets_def Let_def split: prod.splits)

section \<open>Facts about health and shield bounds\<close>

lemma damageTarget_inRange:
  "carInRange t \<Longrightarrow> 0 \<le> bullet_damage b \<Longrightarrow> carInRange (damageTarget b t)"
  by (auto simp: carInRange_def damageTarget_def Let_def min_def)

lemma awardShooter_inRange: "carInRange c \<Longrightarrow> carInRange (awardShooter b t c)"
  by (simp add: carInRange_def)

lemma applyDamage_inRange:
  assumes "\<forall>p \<in> set (gs_players gs). carInRange (snd p)"
    and "carInRange t" and "0 \<le> bullet_damage b"
  shows "\<forall>p \<in> set (gs_players (applyDamage b tid t gs)). carInRange (snd p)"
  using assms damageTarget_inRange[of t b]
  by (auto simp: applyDamage_players updatePlayer_map awardShooter_inRange)

lemma stepBullet_inRange:
  assumes "\<forall>p \<in> set (gs_players (bl_state l)). carInRange (snd p)"
    and "0 \<le> bullet_damage bullet"
  shows "\<forall>p \<in> set (gs_players (bl_state (snd (stepBullet bullet l)))). carInRange (snd p)"
  using stepBullet_players_cases[of bullet l]
proof
  assume "gs_players (bl_state (snd (stepBullet bullet l))) = gs_players (bl_state l)"
  with assms show ?thesis by simp
next
  assume "\<exists>p \<in> set (gs_players (bl_state l)). eligibleTarget (moveBullet bullet) p \<and>
      gs_players (bl_state (snd (stepBullet bullet l))) =
        gs_players (applyDamage (moveBullet bullet) (fst p) (snd p) (bl_state l))"
  then obtain p where p: "p \<in> set (gs_players (bl_state l))"
    and eq: "gs_players (bl_state (snd (stepBullet bullet l))) =
        gs_players (applyDamage (moveBullet bullet) (fst p) (snd p) (bl_state l))"
    by blast
  from assms(1) p have "carInRange (snd p)" by blast
  from applyDamage_inRange[OF assms(1) this, of "moveBullet bullet" "fst p"] assms(2)
  show ?thesis unfolding eq by simp
qed

lemma bulletLoop_inRange:
  "\<forall>p \<in> set (gs_players (bl_state l)). carInRange (snd p) \<Longrightarrow>
   \<forall>b \<in> set bs. 0 \<le> bullet_damage b \<Longrightarrow>
   \<forall>p \<in> set (gs_players (bl_state (snd (bulletLoop bs l)))). carInRange (snd p)"
proof (induction bs arbitrary: l)
  case Nil
  then show ?case by simp
next
  case (Cons b bs)
  have 1: "\<forall>p \<in> set (gs_players (bl_state (snd (stepBullet b l)))). carInRange (snd p)"
    using stepBullet_inRange[OF Cons.prems(1), of b] Cons.prems(2) by simp
  have 2: "\<forall>b \<in> set bs. 0 \<le> bullet_damage b" using Cons.prems(2) by simp
  from Cons.IH[OF 1 2] show ?case by (simp only: bulletLoop_snd_Cons)
qed

lemma getRelativeSpeed_moved [simp]:
  "getRelativeSpeed (c1\<lparr>car_x := a, car_y := b\<rparr>) (c2\<lparr>car_x := a', car_y := b'\<rparr>)
     = getRelativeSpeed c1 c2"
  by (simp add: getRelativeSpeed_def)

lemma collisionDamage_nonneg: "0 \<le> collisionDamage car1 car2"
proof -
  have "\<And>v::real. 3 < v \<Longrightarrow> 0 \<le> real_of_int \<lfloor>v * 2\<rfloor>" by simp
  then show ?thesis
    by (simp add: collisionDamage_def COLLISION_DAMAGE_THRESHOLD_def
          COLLISION_DAMAGE_MULTIPLIER_def)
qed

lemma checkCarCollision_closed:
  "checkCarCollision car1 car2 =
     (if centreDistance car1 car2 \<ge> CAR_WIDTH
      then Inr (\<lparr>cr_occurred = False, cr_damage = None\<rparr>, car1, car2)
      else if centreDistance car1 car2 = 0 then Inl NaNPosition
      else Inr (\<lparr>cr_occurred = True, cr_damage = Some (collisionDamage car1 car2)\<rparr>,
             car1\<lparr>car_x := car_x car1 + (car_x car1 - car_x car2) / centreDistance car1 car2
                                * (CAR_WIDTH - centreDistance car1 car2) * (1 / 2),
                   car_y := car_y car1 + (car_y car1 - car_y car2) / centreDistance car1 car2
                                * (CAR_WIDTH - centreDistance car1 car2) * (1 / 2),
                   car_health := car_health car1 - collisionDamage car1 car2,
                   car_velocityX := car_velocityX car2 * (1 / 2),
                   car_velocityY := car_velocityY car2 * (1 / 2)\<rparr>,
             car2\<lparr>car_x := car_x car2 - (car_x car1 - car_x car2) / centreDistance car1 car2
                                * (CAR_WIDTH - centreDistance car1 car2) * (1 / 2),
                   car_y := car_y car2 - (car_y car1 - car_y car2) / centreDistance car1 car2
                                * (CAR_WIDTH - centreDistance car1 car2) * (1 / 2),
                   car_health := car_health car2 - collisionDamage car1 car2,
                   car_velocityX := car_velocityX car1 * (1 / 2),
                   car_velocityY := car_velocityY car1 * (1 / 2)\<rparr>))"
  unfolding checkCarCollision_def centreDistance_def[symmetric] Let_def
  by (simp add: collisionDamage_def applyBounce_def Let_def)

lemma checkCarCollision_inRange:
  assumes "checkCarCollision car1 car2 = Inr (r, car1', car2')"
    and "carInRange car1" and "carInRange car2"
  shows "carInRange car1' \<and> carInRange car2' \<and>
         car_health car1' \<le> car_health car1 \<and> car_health car2' \<le> car_health car2"
  using assms collisionDamage_nonneg[of car1 car2]
  unfolding checkCarCollision_closed
  by (auto simp: carInRange_def split: if_splits)

lemma collideWithRest_inRange:
  "collideWithRest car1 cars results = Inr (car1', cars', results') \<Longrightarrow>
   carInRange car1 \<Longrightarrow> \<forall>c \<in> set cars. carInRange c \<Longrightarrow>
   carInRange car1' \<and> (\<forall>c \<in> set cars'. carInRange c)"
proof (induction cars arbitrary: car1 results car1' cars' results')
  case Nil
  then show ?case by simp
next
  case (Cons car2 rest)
  show ?case
  proof (cases "car_health car1 \<le> 0 \<or> car_health car2 \<le> 0")
    case True
    with Cons.prems(1) obtain rest' where
      r: "collideWithRest car1 rest results = Inr (car1', rest', results')"
      and c: "cars' = car2 # rest'"
      by (auto split: sum.splits)
    from Cons.IH[OF r Cons.prems(2)] Cons.prems(3) c show ?thesis by simp
  next
    case False
    with Cons.prems(1) obtain result car1a car2a rest' where
      cc: "checkCarCollision car1 car2 = Inr (result, car1a, car2a)"
      and r: "collideWithRest car1a rest
                (if cr_occurred result then results @ [result] else results)
              = Inr (car1', rest', results')"
      and c: "cars' = car2a # rest'"
      by (auto split: sum.splits)
    from checkCarCollision_inRange[OF cc Cons.prems(2)] Cons.prems(3)
    have a: "carInRange car1a" "carInRange car2a" by simp_all
    from Cons.IH[OF r a(1)] Cons.prems(3) a(2) c show ?thesis by simp
  qed
qed

lemma checkAllCarCollisionsFrom_inRange:
  "checkAllCarCollisionsFrom cars results = Inr (cars', results') \<Longrightarrow>
   \<forall>c \<in> set cars. carInRange c \<Longrightarrow> \<forall>c \<in> set cars'. carInRange c"
proof (induction cars results arbitrary: cars' results' rule: checkAllCarCollisionsFrom.induct)
  case (1 results)
  then show ?case by simp
next
  case (2 car1 rest results)
  from "2.prems"(1) obtain car1a rest1 results1 rest2 where
    a: "collideWithRest car1 rest results = Inr (car1a, rest1, results1)"
    and b: "checkAllCarCollisionsFrom rest1 results1 = Inr (rest2, results')"
    and c: "cars' = car1a # rest2"
    by (auto split: sum.splits)
  from collideWithRest_inRange[OF a] "2.prems"(2)
  have r: "carInRange car1a" "\<forall>c \<in> set rest1. carInRange c" by simp_all
  from "2.IH"[OF a refl refl b r(2)] r(1) c show ?case by simp
qed

section \<open>Unfolding rules for running the model on concrete inputs\<close>

lemmas eval_defs = stepBullet_def moveBullet_def isBulletOutOfBounds_def GAME_WIDTH_def GAME_HEIGHT_def
      checkBulletWallCollision_def rectangleIntersectsWall_def BULLET_SIZE_def
      applyWallDamage_def Let_def checkBulletCarCollision_def CAR_WIDTH_def CAR_HEIGHT_def
      applyDamage_def damageTarget_def awardShooter_def updatePlayer_def
      SHIELD_RECHARGE_DELAY_def SCORE_PER_HIT_def SCORE_PER_KILL_def

section \<open>Facts about firing\<close>







section \<open>Facts about the win condition and the end of a tick\<close>



















section \<open>Facts about the physics step\<close>












section \<open>Car against car\<close>

text \<open>With two cars in the array the double loop of \<open>checkAllCarCollisions\<close> makes one
  test: a pair with a dead car is passed over, a living pair goes to
  \<open>checkCarCollision\<close>.\<close>

lemma checkAllCarCollisions_pair:
  "checkAllCarCollisions [car1, car2] =
     (if car_health car1 \<le> 0 \<or> car_health car2 \<le> 0 then Inr ([car1, car2], [])
      else (case checkCarCollision car1 car2 of
              Inl fault \<Rightarrow> Inl fault
            | Inr (result, car1a, car2a) \<Rightarrow>
                Inr ([car1a, car2a], if cr_occurred result then [result] else [])))"
  by (simp add: checkAllCarCollisions_def split: sum.splits prod.splits)

text \<open>The arithmetic of the push: each centre moves by half the overlap, in opposite
  directions, and the centres end exactly \<open>w\<close> apart.\<close>

lemma pushed_apart:
  fixes d w dx dy :: real
  assumes d: "d = sqrt (dx * dx + dy * dy)" and pos: "0 < d" and w: "d < w"
  shows "sqrt (((x + dx / d * (w - d) * (1 / 2)) - (x - dx - dx / d * (w - d) * (1 / 2)))
               * ((x + dx / d * (w - d) * (1 / 2)) - (x - dx - dx / d * (w - d) * (1 / 2)))
             + ((y + dy / d * (w - d) * (1 / 2)) - (y - dy - dy / d * (w - d) * (1 / 2)))
               * ((y + dy / d * (w - d) * (1 / 2)) - (y - dy - dy / d * (w - d) * (1 / 2)))) = w"
    and "sqrt ((dx / d * (w - d) * (1 / 2)) * (dx / d * (w - d) * (1 / 2))
             + (dy / d * (w - d) * (1 / 2)) * (dy / d * (w - d) * (1 / 2))) = (w - d) / 2"
proof -
  have dd: "dx * dx + dy * dy = d * d"
    using d pos by (metis abs_of_pos real_sqrt_abs2 real_sqrt_mult_self real_sqrt_eq_iff
        real_sqrt_mult)
  have a: "(x + dx / d * (w - d) * (1 / 2)) - (x - dx - dx / d * (w - d) * (1 / 2)) = dx * (w / d)"
    using pos by (simp add: field_simps)
  have b: "(y + dy / d * (w - d) * (1 / 2)) - (y - dy - dy / d * (w - d) * (1 / 2)) = dy * (w / d)"
    using pos by (simp add: field_simps)
  have "dx * (w / d) * (dx * (w / d)) + dy * (w / d) * (dy * (w / d))
          = (dx * dx + dy * dy) * ((w / d) * (w / d))"
    by (simp add: algebra_simps add_divide_distrib)
  also have "\<dots> = w * w" using pos by (simp add: dd)
  finally have "sqrt (dx * (w / d) * (dx * (w / d)) + dy * (w / d) * (dy * (w / d))) = w"
    using pos w by simp
  then show "sqrt (((x + dx / d * (w - d) * (1 / 2)) - (x - dx - dx / d * (w - d) * (1 / 2)))
               * ((x + dx / d * (w - d) * (1 / 2)) - (x - dx - dx / d * (w - d) * (1 / 2)))
             + ((y + dy / d * (w - d) * (1 / 2)) - (y - dy - dy / d * (w - d) * (1 / 2)))
               * ((y + dy / d * (w - d) * (1 / 2)) - (y - dy - dy / d * (w - d) * (1 / 2)))) = w"
    unfolding a b .
  have "(dx / d * (w - d) * (1 / 2)) * (dx / d * (w - d) * (1 / 2))
             + (dy / d * (w - d) * (1 / 2)) * (dy / d * (w - d) * (1 / 2))
        = (dx * dx + dy * dy) * (((w - d) / 2 / d) * ((w - d) / 2 / d))"
    by (simp add: algebra_simps add_divide_distrib diff_divide_distrib)
  also have "\<dots> = ((w - d) / 2) * ((w - d) / 2)" using pos by (simp add: dd)
  finally have half: "(dx / d * (w - d) * (1 / 2)) * (dx / d * (w - d) * (1 / 2))
             + (dy / d * (w - d) * (1 / 2)) * (dy / d * (w - d) * (1 / 2))
        = ((w - d) / 2) * ((w - d) / 2)" .
  have "sqrt (((w - d) / 2) * ((w - d) / 2)) = (w - d) / 2"
    using w by (simp only: real_sqrt_abs2) simp
  then show "sqrt ((dx / d * (w - d) * (1 / 2)) * (dx / d * (w - d) * (1 / 2))
             + (dy / d * (w - d) * (1 / 2)) * (dy / d * (w - d) * (1 / 2))) = (w - d) / 2"
    unfolding half .
qed


text \<open>\<open>checkCarCollision\<close> on centres that do not coincide: nothing happens at distance
  \<open>CAR_WIDTH\<close> or more; below it each car is moved half the overlap, in opposite
  directions, the velocities are exchanged and halved, and both cars lose the same
  \<open>collisionDamage\<close>, which is positive only above the threshold.\<close>

lemma car_collision_apart:
  "CAR_WIDTH \<le> centreDistance car1 car2 \<Longrightarrow>
     checkCarCollision car1 car2 = Inr (\<lparr>cr_occurred = False, cr_damage = None\<rparr>, car1, car2)"
  by (simp add: checkCarCollision_closed)

lemma car_collision_resolved:
  assumes pos: "centreDistance car1 car2 \<noteq> 0" and lt: "centreDistance car1 car2 < CAR_WIDTH"
  shows "\<exists>c1 c2.
     checkCarCollision car1 car2
       = Inr (\<lparr>cr_occurred = True, cr_damage = Some (collisionDamage car1 car2)\<rparr>, c1, c2) \<and>
     sqrt ((car_x c1 - car_x car1) * (car_x c1 - car_x car1)
           + (car_y c1 - car_y car1) * (car_y c1 - car_y car1))
       = (CAR_WIDTH - centreDistance car1 car2) / 2 \<and>
     sqrt ((car_x c2 - car_x car2) * (car_x c2 - car_x car2)
           + (car_y c2 - car_y car2) * (car_y c2 - car_y car2))
       = (CAR_WIDTH - centreDistance car1 car2) / 2 \<and>
     car_x c1 - car_x car1 = - (car_x c2 - car_x car2) \<and>
     car_y c1 - car_y car1 = - (car_y c2 - car_y car2) \<and>
     centreDistance c1 c2 = CAR_WIDTH \<and>
     car_velocityX c1 = car_velocityX car2 * (1 / 2) \<and>
     car_velocityY c1 = car_velocityY car2 * (1 / 2) \<and>
     car_velocityX c2 = car_velocityX car1 * (1 / 2) \<and>
     car_velocityY c2 = car_velocityY car1 * (1 / 2) \<and>
     car_health c1 = car_health car1 - collisionDamage car1 car2 \<and>
     car_health c2 = car_health car2 - collisionDamage car1 car2"
proof -
  define d where "d = centreDistance car1 car2"
  define dx where "dx = car_x car1 - car_x car2"
  define dy where "dy = car_y car1 - car_y car2"
  define px where "px = dx / d * (CAR_WIDTH - d) * (1 / 2)"
  define py where "py = dy / d * (CAR_WIDTH - d) * (1 / 2)"
  define c1 where "c1 = car1\<lparr>car_x := car_x car1 + px, car_y := car_y car1 + py,
                     car_health := car_health car1 - collisionDamage car1 car2,
                     car_velocityX := car_velocityX car2 * (1 / 2),
                     car_velocityY := car_velocityY car2 * (1 / 2)\<rparr>"
  define c2 where "c2 = car2\<lparr>car_x := car_x car2 - px, car_y := car_y car2 - py,
                     car_health := car_health car2 - collisionDamage car1 car2,
                     car_velocityX := car_velocityX car1 * (1 / 2),
                     car_velocityY := car_velocityY car1 * (1 / 2)\<rparr>"
  have dsq: "d = sqrt (dx * dx + dy * dy)"
    by (simp add: d_def dx_def dy_def centreDistance_def)
  have "0 \<le> d" unfolding dsq by simp
  with pos have dpos: "0 < d" by (simp add: d_def)
  have dlt: "d < CAR_WIDTH" using lt by (simp add: d_def)
  have res: "checkCarCollision car1 car2
       = Inr (\<lparr>cr_occurred = True, cr_damage = Some (collisionDamage car1 car2)\<rparr>, c1, c2)"
    using pos lt
    by (simp add: checkCarCollision_closed c1_def c2_def px_def py_def d_def dx_def dy_def)
  have half: "sqrt (px * px + py * py) = (CAR_WIDTH - d) / 2"
    unfolding px_def py_def by (rule pushed_apart(2)[OF dsq dpos dlt])
  have h1: "sqrt ((car_x c1 - car_x car1) * (car_x c1 - car_x car1)
           + (car_y c1 - car_y car1) * (car_y c1 - car_y car1)) = (CAR_WIDTH - d) / 2"
    using half by (simp add: c1_def)
  have h2: "sqrt ((car_x c2 - car_x car2) * (car_x c2 - car_x car2)
           + (car_y c2 - car_y car2) * (car_y c2 - car_y car2)) = (CAR_WIDTH - d) / 2"
    using half by (simp add: c2_def)
  have x2: "car_x car2 = car_x car1 - dx" and y2: "car_y car2 = car_y car1 - dy"
    by (simp_all add: dx_def dy_def)
  have apart: "centreDistance c1 c2 = CAR_WIDTH"
    using pushed_apart(1)[OF dsq dpos dlt, of "car_x car1" "car_y car1"]
    by (simp add: centreDistance_def c1_def c2_def px_def py_def x2 y2)
  have opp: "car_x c1 - car_x car1 = - (car_x c2 - car_x car2)"
            "car_y c1 - car_y car1 = - (car_y c2 - car_y car2)"
    by (simp_all add: c1_def c2_def)
  have vel: "car_velocityX c1 = car_velocityX car2 * (1 / 2)"
            "car_velocityY c1 = car_velocityY car2 * (1 / 2)"
            "car_velocityX c2 = car_velocityX car1 * (1 / 2)"
            "car_velocityY c2 = car_velocityY car1 * (1 / 2)"
    by (simp_all add: c1_def c2_def)
  have hp: "car_health c1 = car_health car1 - collisionDamage car1 car2"
           "car_health c2 = car_health car2 - collisionDamage car1 car2"
    by (simp_all add: c1_def c2_def)
  from res h1 h2 opp apart vel hp show ?thesis
    unfolding d_def by blast
qed

lemma collisionDamage_cases:
  "collisionDamage car1 car2 =
     (if getRelativeSpeed car1 car2 > COLLISION_DAMAGE_THRESHOLD
      then real_of_int \<lfloor>getRelativeSpeed car1 car2 * COLLISION_DAMAGE_MULTIPLIER\<rfloor>
      else 0)"
  by (simp add: collisionDamage_def)

lemma ram_distance: "centreDistance ramA ramB = 50"
proof -
  have "sqrt 2500 = 50" by (rule real_sqrt_unique) simp_all
  then show ?thesis by (simp add: centreDistance_def ramA_def ramB_def hawk_def)
qed

lemma ramC_distance: "centreDistance ramA ramC = 30"
proof -
  have "sqrt 900 = 30" by (rule real_sqrt_unique) simp_all
  then show ?thesis by (simp add: centreDistance_def ramA_def ramC_def hawk_def)
qed

lemma ramC_speed: "getRelativeSpeed ramA ramC = 5"
proof -
  have "sqrt 25 = 5" by (rule real_sqrt_unique) simp_all
  then show ?thesis by (simp add: getRelativeSpeed_def ramA_def ramC_def hawk_def Let_def)
qed

lemma ramC_damage: "collisionDamage ramA ramC = 10"
  by (simp add: collisionDamage_def ramC_speed COLLISION_DAMAGE_THRESHOLD_def
        COLLISION_DAMAGE_MULTIPLIER_def)

lemma ramC_result:
  "checkCarCollision ramA ramC =
     Inr (\<lparr>cr_occurred = True, cr_damage = Some 10\<rparr>,
          ramA\<lparr>car_x := 594, car_y := 392, car_health := 90,
                 car_velocityX := 0, car_velocityY := - 3 / 2\<rparr>,
          ramC\<lparr>car_x := 624, car_y := 432, car_health := 90,
                 car_velocityX := 2, car_velocityY := 0\<rparr>)"
  unfolding checkCarCollision_closed ramC_distance ramC_damage
  by (simp add: CAR_WIDTH_def ramA_def ramC_def hawk_def)

section \<open>Boons\<close>

text \<open>A spawn attempt is visible in the count of random numbers drawn: \<open>trySpawnBoon\<close>
  draws at least two, and nothing else in \<open>update\<close> draws any.\<close>

lemma boonUpdate_unexpired:
  "boonUpdate now freshId walls st =
     (let bm = fst st; rng = snd st;
          remaining = filter (unexpired now) (bm_boons bm);
          bm1 = bm\<lparr>bm_boons := remaining\<rparr>
      in if length remaining < BOON_MAX_COUNT \<and> now - bm_lastSpawnTime bm \<ge> bm_spawnInterval bm
         then (case trySpawnBoon now freshId walls remaining rng of
                 (None, rng1) \<Rightarrow> (bm1, rng1)
               | (Some newBoon, rng1) \<Rightarrow>
                   (bm1\<lparr>bm_boons := remaining @ [newBoon], bm_lastSpawnTime := now\<rparr>, rng1))
         else (bm1, rng))"
  unfolding boonUpdate_def unexpired_def ..

lemma mathRandom_drawn [simp]: "rng_drawn (snd (mathRandom rng)) = rng_drawn rng + 1"
  by (simp add: mathRandom_def)

lemma selectRandomBoonType_drawn [simp]:
  "rng_drawn (snd (selectRandomBoonType rng)) = rng_drawn rng + 1"
proof -
  obtain r rng1 where m: "mathRandom rng = (r, rng1)" by (cases "mathRandom rng")
  have "rng_drawn rng1 = rng_drawn rng + 1" using mathRandom_drawn[of rng] m by simp
  then show ?thesis by (simp add: selectRandomBoonType_def Let_def m)
qed

lemma trySpawnAttempts_drawn:
  "rng_drawn rng + (if n = 0 then 0 else 2) \<le> rng_drawn (snd (trySpawnAttempts n now freshId walls boons rng))"
proof (induction n arbitrary: rng)
  case 0
  then show ?case by simp
next
  case (Suc n)
  obtain r1 rng1 where m1: "mathRandom rng = (r1, rng1)" by (cases "mathRandom rng")
  obtain r2 rng2 where m2: "mathRandom rng1 = (r2, rng2)" by (cases "mathRandom rng1")
  obtain t rng3 where m3: "selectRandomBoonType rng2 = (t, rng3)"
    by (cases "selectRandomBoonType rng2")
  obtain r4 rng4 where m4: "mathRandom rng3 = (r4, rng4)" by (cases "mathRandom rng3")
  have d1: "rng_drawn rng1 = rng_drawn rng + 1" using mathRandom_drawn[of rng] m1 by simp
  have d2: "rng_drawn rng2 = rng_drawn rng + 2" using mathRandom_drawn[of rng1] m2 d1 by simp
  have d3: "rng_drawn rng3 = rng_drawn rng + 3"
    using selectRandomBoonType_drawn[of rng2] m3 d2 by simp
  have d4: "rng_drawn rng4 = rng_drawn rng + 4" using mathRandom_drawn[of rng3] m4 d3 by simp
  have ih: "rng_drawn rng2 \<le> rng_drawn (snd (trySpawnAttempts n now freshId walls boons rng2))"
    using Suc.IH[of rng2] by (simp split: if_splits)
  show ?case
    using ih d2 d4 by (simp add: m1 m2 m3 m4 Let_def)
qed

lemma trySpawnBoon_drawn:
  "rng_drawn rng < rng_drawn (snd (trySpawnBoon now freshId walls boons rng))"
  using trySpawnAttempts_drawn[of rng 20 now freshId walls boons]
  by (simp add: trySpawnBoon_def)

lemma trySpawnAttempts_boon:
  "trySpawnAttempts n now freshId walls boons rng = (Some b, rng') \<Longrightarrow>
     boon_spawnTime b = now \<and> boon_lifetime b = BOON_LIFETIME \<and> boon_id b = freshId"
proof (induction n arbitrary: rng)
  case 0
  then show ?case by simp
next
  case (Suc n)
  then show ?case
    by (auto simp: Let_def split: prod.splits if_splits)
qed

lemma trySpawnBoon_boon:
  "trySpawnBoon now freshId walls boons rng = (Some b, rng') \<Longrightarrow>
     boon_spawnTime b = now \<and> boon_lifetime b = BOON_LIFETIME \<and> boon_id b = freshId"
  unfolding trySpawnBoon_def by (rule trySpawnAttempts_boon)

lemma pickupFirst_length:
  "length (snd (pickupFirst car boons)) \<le> length boons"
  by (induction boons) (auto simp: Let_def split: prod.splits)

lemma pickupFirst_found:
  "pickupFirst car boons = (Some b, rest) \<Longrightarrow> Suc (length rest) = length boons"
  by (induction boons arbitrary: rest) (auto simp: Let_def split: prod.splits if_splits)

lemma checkPickup_length:
  "length (bm_boons (snd (checkPickup car bm))) \<le> length (bm_boons bm)"
  using pickupFirst_length[of car "bm_boons bm"]
  by (auto simp: checkPickup_def split: prod.splits option.splits)


lemma boonUpdate_cases:
  assumes u: "boonUpdate now freshId walls (bm, rng) = (bm', rng')"
  shows "(length (filter (unexpired now) (bm_boons bm)) < BOON_MAX_COUNT
            \<and> bm_spawnInterval bm \<le> now - bm_lastSpawnTime bm
          \<and> rng_drawn rng < rng_drawn rng'
          \<and> (bm' = bm\<lparr>bm_boons := filter (unexpired now) (bm_boons bm)\<rparr>
               \<or> (\<exists>newBoon. bm' = bm\<lparr>bm_boons := filter (unexpired now) (bm_boons bm) @ [newBoon],
                                       bm_lastSpawnTime := now\<rparr>
                             \<and> boon_spawnTime newBoon = now
                             \<and> boon_lifetime newBoon = BOON_LIFETIME)))
         \<or> (\<not> (length (filter (unexpired now) (bm_boons bm)) < BOON_MAX_COUNT
                 \<and> bm_spawnInterval bm \<le> now - bm_lastSpawnTime bm)
             \<and> rng' = rng
             \<and> bm' = bm\<lparr>bm_boons := filter (unexpired now) (bm_boons bm)\<rparr>)"
proof (cases "length (filter (unexpired now) (bm_boons bm)) < BOON_MAX_COUNT
                 \<and> bm_spawnInterval bm \<le> now - bm_lastSpawnTime bm")
  case False
  with u show ?thesis by (auto simp: boonUpdate_unexpired Let_def)
next
  case True
  define remaining where "remaining = filter (unexpired now) (bm_boons bm)"
  obtain found rng1 where t: "trySpawnBoon now freshId walls remaining rng = (found, rng1)"
    by (cases "trySpawnBoon now freshId walls remaining rng")
  have dr: "rng_drawn rng < rng_drawn rng1"
    using trySpawnBoon_drawn[of rng now freshId walls remaining] t by simp
  show ?thesis
  proof (cases found)
    case None
    with u True t dr show ?thesis
      by (auto simp: boonUpdate_unexpired Let_def remaining_def[symmetric])
  next
    case (Some newBoon)
    from trySpawnBoon_boon[of now freshId walls remaining rng newBoon rng1] t Some
    have nb: "boon_spawnTime newBoon = now" "boon_lifetime newBoon = BOON_LIFETIME" by simp_all
    from u True t Some have
      e: "bm' = bm\<lparr>bm_boons := remaining @ [newBoon], bm_lastSpawnTime := now\<rparr>" "rng' = rng1"
      by (auto simp: boonUpdate_unexpired Let_def remaining_def[symmetric])
    from True e dr nb show ?thesis unfolding remaining_def by blast
  qed
qed

lemma boonUpdate_attempt_iff:
  assumes u: "boonUpdate now freshId walls (bm, rng) = (bm', rng')"
  shows "rng_drawn rng' \<noteq> rng_drawn rng \<longleftrightarrow>
           length (filter (unexpired now) (bm_boons bm)) < BOON_MAX_COUNT
           \<and> bm_spawnInterval bm \<le> now - bm_lastSpawnTime bm"
  using boonUpdate_cases[OF u] by auto

lemma boonUpdate_all_unexpired:
  assumes u: "boonUpdate now freshId walls (bm, rng) = (bm', rng')"
  shows "list_all (unexpired now) (bm_boons bm')"
proof -
  have "0 < BOON_LIFETIME" by (simp add: BOON_LIFETIME_def)
  then have n: "\<And>b. boon_spawnTime b = now \<Longrightarrow> boon_lifetime b = BOON_LIFETIME \<Longrightarrow> unexpired now b"
    by (simp add: unexpired_def)
  from boonUpdate_cases[OF u] n show ?thesis
    by (auto simp: list_all_iff)
qed

lemma boonUpdate_length:
  assumes u: "boonUpdate now freshId walls (bm, rng) = (bm', rng')"
    and le: "length (filter (unexpired now) (bm_boons bm)) \<le> BOON_MAX_COUNT"
  shows "length (bm_boons bm') \<le> BOON_MAX_COUNT"
  using boonUpdate_cases[OF u] le by auto

lemma boonUpdate_idle:
  assumes full: "length (bm_boons bm) = BOON_MAX_COUNT"
    and fresh: "list_all (unexpired now) (bm_boons bm)"
  shows "boonUpdate now freshId walls (bm, rng) = (bm, rng)"
proof -
  from fresh have f: "filter (unexpired now) (bm_boons bm) = bm_boons bm"
    by (simp add: list_all_iff)
  show ?thesis
    by (simp add: boonUpdate_unexpired Let_def f full)
qed

lemma boonStep_length:
  "length (bm_boons (fst st)) \<le> BOON_MAX_COUNT \<Longrightarrow>
     length (bm_boons (fst (boonStep op st))) \<le> BOON_MAX_COUNT"
proof (cases op)
  case (OpUpdate now freshId walls)
  assume a: "length (bm_boons (fst st)) \<le> BOON_MAX_COUNT"
  obtain bm rng where st: "st = (bm, rng)" by (cases st)
  obtain bm' rng' where u: "boonUpdate now freshId walls (bm, rng) = (bm', rng')"
    by (cases "boonUpdate now freshId walls (bm, rng)")
  have "length (filter (unexpired now) (bm_boons bm)) \<le> length (bm_boons bm)"
    by (rule length_filter_le)
  moreover from a st have "length (bm_boons bm) \<le> BOON_MAX_COUNT" by simp
  ultimately have "length (filter (unexpired now) (bm_boons bm)) \<le> BOON_MAX_COUNT"
    by (rule order_trans)
  from boonUpdate_length[OF u this] show ?thesis by (simp add: OpUpdate st u)
next
  case (OpCheckPickup car)
  assume a: "length (bm_boons (fst st)) \<le> BOON_MAX_COUNT"
  from checkPickup_length[of car "fst st"] a
  have "length (bm_boons (snd (checkPickup car (fst st)))) \<le> BOON_MAX_COUNT"
    by (rule order_trans)
  then show ?thesis by (simp add: OpCheckPickup)
next
  case (OpRemoveBoon boonId)
  assume a: "length (bm_boons (fst st)) \<le> BOON_MAX_COUNT"
  have "length (filter (\<lambda>b. boon_id b \<noteq> boonId) (bm_boons (fst st))) \<le> length (bm_boons (fst st))"
    by (rule length_filter_le)
  from this a have "length (filter (\<lambda>b. boon_id b \<noteq> boonId) (bm_boons (fst st))) \<le> BOON_MAX_COUNT"
    by (rule order_trans)
  then show ?thesis by (simp add: OpRemoveBoon removeBoon_def)
next
  case OpClear
  then show ?thesis by (simp add: boonClear_def)
next
  case OpReset
  then show ?thesis by (simp add: boonReset_def)
qed

lemma boonRun_length:
  "length (bm_boons (fst st)) \<le> BOON_MAX_COUNT \<Longrightarrow>
     length (bm_boons (fst (boonRun ops st))) \<le> BOON_MAX_COUNT"
  unfolding boonRun_def
proof (induction ops arbitrary: st)
  case Nil
  then show ?case by simp
next
  case (Cons op ops)
  from Cons.IH[OF boonStep_length[OF Cons.prems]] show ?case by simp
qed

lemma boonRun_new:
  "length (bm_boons (fst (boonRun ops (newBoonManager, rng)))) \<le> BOON_MAX_COUNT"
  by (rule boonRun_length) (simp add: newBoonManager_def boonReset_def)

lemma boonRun_idle:
  assumes full: "length (bm_boons bm) = BOON_MAX_COUNT"
  shows "updatesOnly bm ops \<Longrightarrow> boonRun ops (bm, rng) = (bm, rng)"
  unfolding boonRun_def
proof (induction ops)
  case Nil
  then show ?case by simp
next
  case (Cons op ops)
  then show ?case
    by (cases op) (simp_all add: boonUpdate_idle[OF full])
qed

lemma sqrt_not_less: "c * c \<le> x \<Longrightarrow> 0 \<le> c \<Longrightarrow> \<not> sqrt x < c" for c x :: real
proof -
  assume a: "c * c \<le> x" "0 \<le> c"
  then have "c\<^sup>2 \<le> x" by (simp add: power2_eq_square)
  then have "c \<le> sqrt x" by (rule real_le_rsqrt)
  then show ?thesis by simp
qed

lemma fullManager_remaining:
  "filter (unexpired 16000) (bm_boons fullManager)
     = [boonAt ''boon_b'' 600 600 6000, boonAt ''boon_c'' 900 200 11000]"
  by (simp add: fullManager_def unexpired_def boonAt_def BOON_LIFETIME_def)

lemma centre_valid:
  "isValidSpawnLocation 600 400 []
     [boonAt ''boon_b'' 600 600 6000, boonAt ''boon_c'' 900 200 11000]"
proof -
  have a: "\<not> sqrt ((600 - 150) * (600 - 150) + (400 - 800 / 2) * (400 - 800 / 2)) < (100::real)"
    by (rule sqrt_not_less) simp_all
  have b: "\<not> sqrt ((600 - (1200 - 150)) * (600 - (1200 - 150))
                     + (400 - 800 / 2) * (400 - 800 / 2)) < (100::real)"
    by (rule sqrt_not_less) simp_all
  have c: "\<not> sqrt ((600 - 600) * (600 - 600) + (400 - 600) * (400 - 600)) < (35::real) * 2"
    by (rule sqrt_not_less) simp_all
  have d: "\<not> sqrt ((600 - 900) * (600 - 900) + (400 - 200) * (400 - 200)) < (35::real) * 2"
    by (rule sqrt_not_less) simp_all
  show ?thesis
    unfolding isValidSpawnLocation_def PLAYER_SPAWN_POSITIONS_def GAME_WIDTH_def GAME_HEIGHT_def
      BOON_SPAWN_MARGIN_def BOON_PICKUP_RADIUS_def boonAt_def
    using a b c d by simp
qed

lemma steady_type:
  "selectRandomBoonType (steadyRng\<lparr>rng_drawn := 2\<rparr>) = (Shield, steadyRng\<lparr>rng_drawn := 3\<rparr>)"
  by (simp add: selectRandomBoonType_def mathRandom_def steadyRng_def BOON_SPAWN_WEIGHTS_def)

lemma steady_spawn:
  "trySpawnBoon 16000 ''boon_d'' []
     [boonAt ''boon_b'' 600 600 6000, boonAt ''boon_c'' 900 200 11000] steadyRng
   = (Some ((boonAt ''boon_d'' 600 400 16000)\<lparr>boon_type := Shield\<rparr>), steadyRng\<lparr>rng_drawn := 4\<rparr>)"
proof -
  have m1: "mathRandom steadyRng = (1 / 2, steadyRng\<lparr>rng_drawn := 1\<rparr>)"
    by (simp add: mathRandom_def steadyRng_def)
  have m2: "mathRandom (steadyRng\<lparr>rng_drawn := 1\<rparr>) = (1 / 2, steadyRng\<lparr>rng_drawn := 2\<rparr>)"
    by (simp add: mathRandom_def steadyRng_def)
  have m4: "mathRandom (steadyRng\<lparr>rng_drawn := 3\<rparr>) = (1 / 2, steadyRng\<lparr>rng_drawn := 4\<rparr>)"
    by (simp add: mathRandom_def steadyRng_def)
  have x: "BOON_SPAWN_MARGIN + 1 / 2 * (GAME_WIDTH - BOON_SPAWN_MARGIN * 2) = 600"
    by (simp add: BOON_SPAWN_MARGIN_def GAME_WIDTH_def)
  have y: "BOON_SPAWN_MARGIN + 1 / 2 * (GAME_HEIGHT - BOON_SPAWN_MARGIN * 2) = 400"
    by (simp add: BOON_SPAWN_MARGIN_def GAME_HEIGHT_def)
  have "trySpawnAttempts (Suc 19) 16000 ''boon_d'' []
     [boonAt ''boon_b'' 600 600 6000, boonAt ''boon_c'' 900 200 11000] steadyRng
   = (Some ((boonAt ''boon_d'' 600 400 16000)\<lparr>boon_type := Shield\<rparr>), steadyRng\<lparr>rng_drawn := 4\<rparr>)"
    unfolding trySpawnAttempts.simps m1 m2 Let_def prod.case x y
    by (simp add: centre_valid steady_type m4) (simp add: boonAt_def)
  then show ?thesis by (simp add: trySpawnBoon_def)
qed

lemma refill_update:
  "boonUpdate 16000 ''boon_d'' [] (fullManager, steadyRng) = (refilled, steadyRng\<lparr>rng_drawn := 4\<rparr>)"
  unfolding boonUpdate_unexpired Let_def fst_conv snd_conv fullManager_remaining
  by (simp add: steady_spawn BOON_MAX_COUNT_def) (simp add: fullManager_def refilled_def BOON_SPAWN_INTERVAL_def)

section \<open>The matchmaking queue\<close>

text \<open>The association list stands for a \<open>Map\<close>: \<open>set\<close> keeps the keys distinct and
  \<open>delete\<close> removes the key.\<close>

lemma jsMapHas_iff: "jsMapHas k m \<longleftrightarrow> k \<in> fst ` set m"
  by (simp add: jsMapHas_def map_of_eq_None_iff)

lemma jsMapSet_map_fst:
  "map fst (jsMapSet k v m) = (if k \<in> fst ` set m then map fst m else map fst m @ [k])"
proof (induction m)
  case Nil
  then show ?case by simp
next
  case (Cons p m)
  obtain k' v' where p: "p = (k', v')" by (cases p)
  show ?case
  proof (cases "k' = k")
    case True
    then show ?thesis by (simp add: p)
  next
    case False
    then have "k \<in> fst ` set (p # m) \<longleftrightarrow> k \<in> fst ` set m" by (auto simp: p)
    with Cons False show ?thesis by (simp add: p)
  qed
qed

lemma jsMapSet_keys: "fst ` set (jsMapSet k v m) = insert k (fst ` set m)"
proof -
  have "set (map fst (jsMapSet k v m)) = insert k (set (map fst m))"
    unfolding jsMapSet_map_fst by auto
  then show ?thesis by simp
qed

lemma jsMapSet_distinct: "distinct (map fst m) \<Longrightarrow> distinct (map fst (jsMapSet k v m))"
  by (simp add: jsMapSet_map_fst)

lemma jsMapDelete_keys: "fst ` set (jsMapDelete k m) = fst ` set m - {k}"
  by (auto simp: jsMapDelete_def)

lemma jsMapDelete_distinct: "distinct (map fst m) \<Longrightarrow> distinct (map fst (jsMapDelete k m))"
  by (simp add: jsMapDelete_def distinct_map_filter)

lemma jsMapHas_set: "jsMapHas k (jsMapSet k' v m) \<longleftrightarrow> k = k' \<or> jsMapHas k m"
  by (auto simp: jsMapHas_iff jsMapSet_keys)

lemma jsMapHas_delete: "jsMapHas k (jsMapDelete k' m) \<longleftrightarrow> k \<noteq> k' \<and> jsMapHas k m"
  by (auto simp: jsMapHas_iff jsMapDelete_keys)

lemma findOther_Some:
  "findOther newPlayerWs queue = Some (otherWs, otherPlayer) \<Longrightarrow>
     otherWs \<noteq> newPlayerWs \<and> (otherWs, otherPlayer) \<in> set queue"
  by (induction queue) (auto split: if_splits)

lemma tryMatchPlayers_matched:
  assumes t: "tryMatchPlayers createRoom joinRoom now newPlayerWs rm = (res, rm')"
    and m: "mr_matched res"
  shows "\<exists>otherWs otherPlayer roomCode hostId playerId playerCount rm2.
     2 \<le> length (rm_matchmakingQueue rm) \<and>
     findOther newPlayerWs (rm_matchmakingQueue rm) = Some (otherWs, otherPlayer) \<and>
     createRoom otherWs
       (rm\<lparr>rm_matchmakingQueue :=
             jsMapDelete otherWs (jsMapDelete newPlayerWs (rm_matchmakingQueue rm))\<rparr>)
       = (Some (roomCode, hostId), rm2) \<and>
     joinRoom newPlayerWs roomCode rm2 = (Some (playerId, playerCount), rm') \<and>
     res = \<lparr>mr_matched = True, mr_roomCode = Some roomCode, mr_playerId = Some playerId\<rparr>"
  using t m
  unfolding tryMatchPlayers_def Let_def
  by (auto split: if_splits option.splits prod.splits)

lemma tryMatchPlayers_queue:
  assumes fc: "\<And>ws r. rm_matchmakingQueue (snd (createRoom ws r)) = rm_matchmakingQueue r"
    and fj: "\<And>ws code r. rm_matchmakingQueue (snd (joinRoom ws code r)) = rm_matchmakingQueue r"
    and t: "tryMatchPlayers createRoom joinRoom now newPlayerWs rm = (res, rm')"
    and d: "distinct (map fst (rm_matchmakingQueue rm))"
  shows "distinct (map fst (rm_matchmakingQueue rm'))"
proof -
  have c: "\<And>ws r x r'. createRoom ws r = (x, r') \<Longrightarrow> rm_matchmakingQueue r' = rm_matchmakingQueue r"
    using fc by (metis snd_conv)
  have j: "\<And>ws code r x r'. joinRoom ws code r = (x, r')
              \<Longrightarrow> rm_matchmakingQueue r' = rm_matchmakingQueue r"
    using fj by (metis snd_conv)
  show ?thesis
  proof (cases "length (rm_matchmakingQueue rm) < 2")
    case True
    with t d show ?thesis by (simp add: tryMatchPlayers_def Let_def)
  next
    case False
    show ?thesis
    proof (cases "findOther newPlayerWs (rm_matchmakingQueue rm)")
      case None
      with t d False show ?thesis by (simp add: tryMatchPlayers_def Let_def)
    next
      case (Some found)
      obtain otherWs otherPlayer where f: "found = (otherWs, otherPlayer)" by (cases found)
      define rm1 where "rm1 = rm\<lparr>rm_matchmakingQueue :=
             jsMapDelete otherWs (jsMapDelete newPlayerWs (rm_matchmakingQueue rm))\<rparr>"
      have d1: "distinct (map fst (rm_matchmakingQueue rm1))"
        using d by (simp add: rm1_def jsMapDelete_distinct)
      obtain created rm2 where cr: "createRoom otherWs rm1 = (created, rm2)"
        by (cases "createRoom otherWs rm1")
      have d2: "distinct (map fst (rm_matchmakingQueue rm2))" using c[OF cr] d1 by simp
      show ?thesis
      proof (cases created)
        case None
        with t False Some f cr have
          "rm' = rm2\<lparr>rm_matchmakingQueue :=
                      jsMapSet otherWs \<lparr>qp_ws = otherWs, qp_joinedAt = now\<rparr>
                        (jsMapSet newPlayerWs \<lparr>qp_ws = newPlayerWs, qp_joinedAt = now\<rparr>
                           (rm_matchmakingQueue rm2))\<rparr>"
          by (simp add: tryMatchPlayers_def Let_def rm1_def[symmetric])
        with d2 show ?thesis by (simp add: jsMapSet_distinct)
      next
        case (Some room)
        obtain roomCode hostId where r: "room = (roomCode, hostId)" by (cases room)
        obtain joined rm3 where jn: "joinRoom newPlayerWs roomCode rm2 = (joined, rm3)"
          by (cases "joinRoom newPlayerWs roomCode rm2")
        have "rm' = rm3"
          using t False \<open>findOther newPlayerWs (rm_matchmakingQueue rm) = Some found\<close> f cr Some r jn
          by (cases joined) (auto simp: tryMatchPlayers_def Let_def rm1_def[symmetric])
        with j[OF jn] d2 show ?thesis by simp
      qed
    qed
  qed
qed


lemma distinct_keys_once:
  "distinct (map fst m) \<Longrightarrow> length (filter (\<lambda>p. fst p = k) m) \<le> 1"
proof (induction m)
  case Nil
  then show ?case by simp
next
  case (Cons p m)
  show ?case
  proof (cases "fst p = k")
    case True
    with Cons.prems have "k \<notin> fst ` set m" by auto
    then have "filter (\<lambda>p. fst p = k) m = []" by (auto simp: filter_empty_conv)
    with True show ?thesis by simp
  next
    case False
    with Cons show ?thesis by simp
  qed
qed

lemma openRoom_queue: "rm_matchmakingQueue (snd (openRoom s r)) = rm_matchmakingQueue r"
  by (simp add: openRoom_def)

lemma enterRoom_queue: "rm_matchmakingQueue (snd (enterRoom s code r)) = rm_matchmakingQueue r"
  by (simp add: enterRoom_def split: option.splits)

lemma pairing_run:
  "joinMatchmaking openRoom enterRoom 200 2 oneWaiting =
     (\<lparr>mr_matched = True, mr_roomCode = Some ''ARENA1'', mr_playerId = Some ''player2''\<rparr>,
      \<lparr>rm_matchmakingQueue = [], rm_rest = [(''ARENA1'', [1, 2])]\<rparr>)"
  by (simp add: joinMatchmaking_def tryMatchPlayers_def oneWaiting_def jsMapHas_def
        jsMapDelete_def openRoom_def enterRoom_def Let_def)

lemma repeated_run:
  "joinMatchmaking openRoom enterRoom 300 1 oneWaiting =
     (\<lparr>mr_matched = False, mr_roomCode = None, mr_playerId = None\<rparr>, oneWaiting)"
  by (simp add: joinMatchmaking_def oneWaiting_def jsMapHas_def)

section \<open>Walls hit by projectiles\<close>





section \<open>Health and shield under damage\<close>

lemma scenarioC_run:
  "fst (updateBullets scenarioC) =
     scenarioC\<lparr>gs_players :=
         [(''p1'', (hawk ''p1'' 150 400 0)\<lparr>car_score := 110\<rparr>),
          (''p2'', (hawk ''p2'' 565 400 0)\<lparr>car_health := - 5, car_shield := 0,
                     car_shieldRechargeTimer := 3000\<rparr>)],
       gs_bullets := []\<rparr>"
  by (simp add: updateBullets_def scenarioC_def finisher_def weakened_def hawk_def eval_defs)

text \<open>
  C1, as the spec states it, fails at its own example: \<open>applyDamage\<close> subtracts what the
  shield did not absorb and never clamps, so the player at 10 health and 0 shield hit for
  15 ends at health \<open>-5\<close>, below 0.
\<close>

theorem health_goes_negative_counterexample:
  "car_health (weakened (hawk ''p2'' 565 400 0)) = 10 \<and>
   car_shield (weakened (hawk ''p2'' 565 400 0)) = 0 \<and>
   bullet_damage finisher = 15 \<and>
   car_health (damageTarget finisher (weakened (hawk ''p2'' 565 400 0))) = - 5 \<and>
   map_of (gs_players (fst (updateBullets scenarioC))) ''p2'' =
     Some ((hawk ''p2'' 565 400 0)\<lparr>car_health := - 5, car_shield := 0,
             car_shieldRechargeTimer := 3000\<rparr>)"
  unfolding scenarioC_run
  by (simp add: scenarioC_def finisher_def weakened_def hawk_def damageTarget_def Let_def
        SHIELD_RECHARGE_DELAY_def)

text \<open>
  C1, amended. After the damage of a bullet update (projectile hits, shield first) and of
  the car-car collisions, every player's shield lies within \<open>[0, max]\<close> and its health is
  at most its maximum, given that this held before and no projectile has negative damage.
  Health has no lower bound: a hit lowers it by the damage the shield did not absorb,
  \<open>max 0 (damage - shield)\<close>, and a player at 10 health and 0 shield hit by a projectile
  of damage 15 ends with health \<open>-5\<close>. (A collision that would divide by a zero distance is
  the fault value, not a state.)
\<close>

theorem damage_keeps_upper_bounds:
  "((\<forall>p \<in> set (gs_players gs). carInRange (snd p)) \<and>
    (\<forall>b \<in> set (gs_bullets gs). 0 \<le> bullet_damage b) \<longrightarrow>
      (\<forall>p \<in> set (gs_players (fst (updateBullets gs))). carInRange (snd p))) \<and>
   ((\<forall>c \<in> set cars. carInRange c) \<and> checkAllCarCollisions cars = Inr (cars', results) \<longrightarrow>
      (\<forall>c \<in> set cars'. carInRange c)) \<and>
   (0 \<le> car_shield target \<longrightarrow>
      car_health (damageTarget bullet target) =
        car_health target - max 0 (bullet_damage bullet - car_shield target)) \<and>
   (car_health target = 10 \<and> car_shield target = 0 \<and> bullet_damage bullet = 15 \<longrightarrow>
      car_health (damageTarget bullet target) = - 5)"
proof -
  have a: "(\<forall>p \<in> set (gs_players gs). carInRange (snd p)) \<and>
    (\<forall>b \<in> set (gs_bullets gs). 0 \<le> bullet_damage b) \<longrightarrow>
      (\<forall>p \<in> set (gs_players (fst (updateBullets gs))). carInRange (snd p))"
    unfolding updateBullets_players
    using bulletLoop_inRange[of "startLoop gs" "gs_bullets gs"]
    by (simp add: startLoop_def)
  have b: "(\<forall>c \<in> set cars. carInRange c) \<and> checkAllCarCollisions cars = Inr (cars', results) \<longrightarrow>
      (\<forall>c \<in> set cars'. carInRange c)"
    unfolding checkAllCarCollisions_def
    using checkAllCarCollisionsFrom_inRange[of cars "[]" cars' results] by blast
  have c: "0 \<le> car_shield target \<longrightarrow>
      car_health (damageTarget bullet target) =
        car_health target - max 0 (bullet_damage bullet - car_shield target)"
    by (simp add: damageTarget_health)
  have d: "car_health target = 10 \<and> car_shield target = 0 \<and> bullet_damage bullet = 15 \<longrightarrow>
      car_health (damageTarget bullet target) = - 5"
    by (simp add: damageTarget_health)
  from a b c d show ?thesis by blast
qed

theorem damage_keeps_upper_bounds_witness:
  "list_all (\<lambda>p. carInRange (snd p)) (gs_players scenarioC) \<and>
   list_all (\<lambda>b. 0 \<le> bullet_damage b) (gs_bullets scenarioC) \<and>
   list_all (\<lambda>p. carInRange (snd p)) (gs_players (fst (updateBullets scenarioC))) \<and>
   car_health (weakened (hawk ''p2'' 565 400 0)) = 10 \<and>
   car_shield (weakened (hawk ''p2'' 565 400 0)) = 0 \<and>
   bullet_damage finisher = 15 \<and>
   car_health (damageTarget finisher (weakened (hawk ''p2'' 565 400 0))) = - 5"
proof -
  have p: "\<forall>p \<in> set (gs_players scenarioC). carInRange (snd p)"
    and q: "\<forall>b \<in> set (gs_bullets scenarioC). 0 \<le> bullet_damage b"
    by (simp_all add: scenarioC_def finisher_def weakened_def hawk_def carInRange_def)
  have e: "car_health (weakened (hawk ''p2'' 565 400 0)) = 10"
    "car_shield (weakened (hawk ''p2'' 565 400 0)) = 0" "bullet_damage finisher = 15"
    by (simp_all add: weakened_def finisher_def)
  from damage_keeps_upper_bounds[of scenarioC cars cars' results
      "weakened (hawk ''p2'' 565 400 0)" finisher] p q e
  have "(\<forall>p \<in> set (gs_players (fst (updateBullets scenarioC))). carInRange (snd p)) \<and>
        car_health (damageTarget finisher (weakened (hawk ''p2'' 565 400 0))) = - 5"
    by blast
  with p q e show ?thesis by (simp add: list_all_iff)
qed

section \<open>One destruction cause per projectile\<close>




section \<open>Fire requests\<close>







section \<open>One physics advance\<close>







section \<open>The win condition\<close>







section \<open>C7: car against car, coincident centres\<close>

text \<open>Claim C7. For every pair of living cars the collision is resolved exactly when the
  distance of the centres is below \<open>CAR_WIDTH\<close> (the sum of the half widths); the
  resolution moves each car half the overlap away from the other along the line of the
  centres, exchanges the velocities scaled by the bounce factor \<open>1/2\<close>, and, exactly when the
  relative speed exceeds the threshold, takes \<open>floor (relativeSpeed * multiplier)\<close> from
  the health of both.

  For centres that do not coincide this is what \<open>checkCarCollision\<close> does:
  \<open>car_collision_apart\<close>, \<open>car_collision_resolved\<close> and \<open>collisionDamage_cases\<close>
  above, and \<open>ramC_result\<close> on two cars 30 apart. Two living cars on the same point
  are a pair the claim covers (distance 0, overlap 50), but \<open>checkCarCollision\<close> divides
  the separation by the distance without testing it: \<open>pushX = (0 / 0) * 50 * 0.5\<close>. No car
  is moved apart; the positions of both are lost. \<open>Vector.normalize\<close> of the same code
  base tests for length 0 before it divides. The theorem evaluates the code on such a
  pair.\<close>

theorem coincident_cars_fault:
  "0 < car_health (hawk ''p1'' 600 400 0) \<and> 0 < car_health (hawk ''p2'' 600 400 0) \<and>
   centreDistance (hawk ''p1'' 600 400 0) (hawk ''p2'' 600 400 0) = 0 \<and>
   checkCarCollision (hawk ''p1'' 600 400 0) (hawk ''p2'' 600 400 0) = Inl NaNPosition \<and>
   checkAllCarCollisions [hawk ''p1'' 600 400 0, hawk ''p2'' 600 400 0] = Inl NaNPosition"
proof -
  have d: "centreDistance (hawk ''p1'' 600 400 0) (hawk ''p2'' 600 400 0) = 0"
    by (simp add: centreDistance_def hawk_def)
  have f: "checkCarCollision (hawk ''p1'' 600 400 0) (hawk ''p2'' 600 400 0) = Inl NaNPosition"
    by (simp add: checkCarCollision_closed d CAR_WIDTH_def)
  have a: "checkAllCarCollisions [hawk ''p1'' 600 400 0, hawk ''p2'' 600 400 0] = Inl NaNPosition"
    unfolding checkAllCarCollisions_pair f by (simp add: hawk_def)
  have h: "0 < car_health (hawk ''p1'' 600 400 0)" "0 < car_health (hawk ''p2'' 600 400 0)"
    by (simp_all add: hawk_def)
  from d f a h show ?thesis by blast
qed

section \<open>C8: expiry, the spawn gate and the cap of three\<close>

text \<open>Claim C8. In every power-up update the expired power-ups are removed before the
  spawn decision: the boons left after \<open>boonUpdate\<close> are the unexpired ones, with at
  most one new boon appended, and all of them are unexpired. A spawn attempt (a draw of
  random numbers) is made exactly when the count of the unexpired boons is below
  \<open>BOON_MAX_COUNT = 3\<close> and the spawn interval has elapsed. Hence an update keeps the
  count at most 3, the count is at most 3 after any sequence of calls on a new manager,
  and a manager with 3 boons is left as it is, with no random number drawn, by any
  sequence of updates at times when none of the three has expired.\<close>

theorem boon_spawn_gate:
  assumes u: "boonUpdate now freshId walls (bm, rng) = (bm', rng')"
  shows "BOON_MAX_COUNT = 3 \<and>
     list_all (unexpired now) (bm_boons bm') \<and>
     (rng_drawn rng' \<noteq> rng_drawn rng \<longleftrightarrow>
        length (filter (unexpired now) (bm_boons bm)) < BOON_MAX_COUNT
        \<and> bm_spawnInterval bm \<le> now - bm_lastSpawnTime bm) \<and>
     (bm_boons bm' = filter (unexpired now) (bm_boons bm)
      \<or> (\<exists>newBoon. bm_boons bm' = filter (unexpired now) (bm_boons bm) @ [newBoon]
                     \<and> rng_drawn rng' \<noteq> rng_drawn rng)) \<and>
     (length (bm_boons bm) \<le> BOON_MAX_COUNT \<longrightarrow> length (bm_boons bm') \<le> BOON_MAX_COUNT) \<and>
     length (bm_boons (fst (boonRun ops (newBoonManager, rng)))) \<le> BOON_MAX_COUNT \<and>
     (length (bm_boons bm) = BOON_MAX_COUNT \<and> updatesOnly bm idle
        \<longrightarrow> boonRun idle (bm, rng) = (bm, rng))"
proof -
  have a: "list_all (unexpired now) (bm_boons bm')" by (rule boonUpdate_all_unexpired[OF u])
  have b: "rng_drawn rng' \<noteq> rng_drawn rng \<longleftrightarrow>
        length (filter (unexpired now) (bm_boons bm)) < BOON_MAX_COUNT
        \<and> bm_spawnInterval bm \<le> now - bm_lastSpawnTime bm"
    by (rule boonUpdate_attempt_iff[OF u])
  have c: "bm_boons bm' = filter (unexpired now) (bm_boons bm)
      \<or> (\<exists>newBoon. bm_boons bm' = filter (unexpired now) (bm_boons bm) @ [newBoon]
                     \<and> rng_drawn rng' \<noteq> rng_drawn rng)"
    using boonUpdate_cases[OF u] by auto
  have d: "length (bm_boons bm) \<le> BOON_MAX_COUNT \<longrightarrow> length (bm_boons bm') \<le> BOON_MAX_COUNT"
  proof
    assume le: "length (bm_boons bm) \<le> BOON_MAX_COUNT"
    have "length (filter (unexpired now) (bm_boons bm)) \<le> length (bm_boons bm)"
      by (rule length_filter_le)
    from this le have "length (filter (unexpired now) (bm_boons bm)) \<le> BOON_MAX_COUNT"
      by (rule order_trans)
    then show "length (bm_boons bm') \<le> BOON_MAX_COUNT" by (rule boonUpdate_length[OF u])
  qed
  have e: "length (bm_boons (fst (boonRun ops (newBoonManager, rng)))) \<le> BOON_MAX_COUNT"
    by (rule boonRun_new)
  have f: "length (bm_boons bm) = BOON_MAX_COUNT \<and> updatesOnly bm idle
        \<longrightarrow> boonRun idle (bm, rng) = (bm, rng)"
    using boonRun_idle by blast
  have g: "BOON_MAX_COUNT = 3" by (simp add: BOON_MAX_COUNT_def)
  from a b c d e f g show ?thesis by blast
qed

text \<open>The theorem at \<open>fullManager\<close>: updates at 12000 and 15999 do nothing; at 16000
  the oldest boon has expired, the count is 2 at the spawn decision, and a boon is
  spawned.\<close>

theorem boon_spawn_gate_witness:
  "boonUpdate 16000 ''boon_d'' [] (fullManager, steadyRng) = (refilled, steadyRng\<lparr>rng_drawn := 4\<rparr>) \<and>
   length (bm_boons fullManager) = 3 \<and>
   length (filter (unexpired 16000) (bm_boons fullManager)) = 2 \<and>
   length (bm_boons refilled) = 3 \<and>
   list_all (unexpired 16000) (bm_boons refilled) \<and>
   updatesOnly fullManager [OpUpdate 12000 ''boon_d'' [], OpUpdate 15999 ''boon_e'' []] \<and>
   boonRun [OpUpdate 12000 ''boon_d'' [], OpUpdate 15999 ''boon_e'' []] (fullManager, steadyRng)
     = (fullManager, steadyRng)"
proof -
  have l: "length (bm_boons fullManager) = 3" by (simp add: fullManager_def)
  have l2: "length (filter (unexpired 16000) (bm_boons fullManager)) = 2"
    by (simp add: fullManager_remaining)
  have l3: "length (bm_boons refilled) = 3" by (simp add: refilled_def)
  have i: "updatesOnly fullManager [OpUpdate 12000 ''boon_d'' [], OpUpdate 15999 ''boon_e'' []]"
    by (simp add: fullManager_def unexpired_def boonAt_def BOON_LIFETIME_def)
  from boon_spawn_gate[OF refill_update,
      of "[]" "[OpUpdate 12000 ''boon_d'' [], OpUpdate 15999 ''boon_e'' []]"] l l2 l3 i refill_update
  show ?thesis by (simp add: BOON_MAX_COUNT_def)
qed

section \<open>C9: matchmaking pairs two distinct sockets and dequeues both\<close>

text \<open>Claim C9. Every successful pairing of \<open>joinMatchmaking\<close> takes two distinct queued
  sockets, the one that asked and another one found in the queue, and removes both from
  the queue before the room is created and joined: \<open>createRoom\<close> is called on a manager in
  whose queue neither is left, \<open>joinRoom\<close> after it. So neither paired socket is in the
  queue afterwards, the other entries being kept. A request of a socket that is already
  queued changes nothing, and no socket is in the queue twice.

  \<open>createRoom\<close> and \<open>joinRoom\<close> are parameters of the model. In the source they are
  methods of \<open>RoomManager\<close> that work on \<open>rooms\<close> and \<open>playerToRoom\<close> and do not mention
  \<open>matchmakingQueue\<close>; the first two hypotheses say this. The third is the uniqueness of
  the keys of a \<open>Map\<close>.\<close>

theorem matchmaking_pairing:
  assumes fc: "\<And>s r. rm_matchmakingQueue (snd (createRoom s r)) = rm_matchmakingQueue r"
    and fj: "\<And>s code r. rm_matchmakingQueue (snd (joinRoom s code r)) = rm_matchmakingQueue r"
    and d: "distinct (map fst (rm_matchmakingQueue rm))"
    and j: "joinMatchmaking createRoom joinRoom now ws rm = (res, rm')"
  shows "(mr_matched res \<longrightarrow>
           (\<exists>otherWs roomCode hostId playerId playerCount queued rm1 rm2.
              queued = jsMapSet ws \<lparr>qp_ws = ws, qp_joinedAt = now\<rparr> (rm_matchmakingQueue rm) \<and>
              otherWs \<noteq> ws \<and> jsMapHas otherWs queued \<and> jsMapHas ws queued \<and>
              rm1 = rm\<lparr>rm_matchmakingQueue := jsMapDelete otherWs (jsMapDelete ws queued)\<rparr> \<and>
              \<not> jsMapHas ws (rm_matchmakingQueue rm1) \<and>
              \<not> jsMapHas otherWs (rm_matchmakingQueue rm1) \<and>
              createRoom otherWs rm1 = (Some (roomCode, hostId), rm2) \<and>
              joinRoom ws roomCode rm2 = (Some (playerId, playerCount), rm') \<and>
              res = \<lparr>mr_matched = True, mr_roomCode = Some roomCode,
                      mr_playerId = Some playerId\<rparr> \<and>
              \<not> jsMapHas ws (rm_matchmakingQueue rm') \<and>
              \<not> jsMapHas otherWs (rm_matchmakingQueue rm') \<and>
              fst ` set (rm_matchmakingQueue rm')
                = fst ` set (rm_matchmakingQueue rm) - {otherWs}))
       \<and> (jsMapHas ws (rm_matchmakingQueue rm) \<longrightarrow>
            res = \<lparr>mr_matched = False, mr_roomCode = None, mr_playerId = None\<rparr> \<and> rm' = rm)
       \<and> distinct (map fst (rm_matchmakingQueue rm'))
       \<and> length (filter (\<lambda>p. fst p = ws) (rm_matchmakingQueue rm')) \<le> 1"
proof -
  define queued where
    "queued = jsMapSet ws \<lparr>qp_ws = ws, qp_joinedAt = now\<rparr> (rm_matchmakingQueue rm)"
  define rm0 where "rm0 = rm\<lparr>rm_matchmakingQueue := queued\<rparr>"
  have c: "\<And>s r x r'. createRoom s r = (x, r') \<Longrightarrow> rm_matchmakingQueue r' = rm_matchmakingQueue r"
    using fc by (metis snd_conv)
  have jn: "\<And>s code r x r'. joinRoom s code r = (x, r')
              \<Longrightarrow> rm_matchmakingQueue r' = rm_matchmakingQueue r"
    using fj by (metis snd_conv)
  have already: "jsMapHas ws (rm_matchmakingQueue rm) \<longrightarrow>
            res = \<lparr>mr_matched = False, mr_roomCode = None, mr_playerId = None\<rparr> \<and> rm' = rm"
    using j by (auto simp: joinMatchmaking_def)
  have dist: "distinct (map fst (rm_matchmakingQueue rm'))"
  proof (cases "jsMapHas ws (rm_matchmakingQueue rm)")
    case True
    with already d show ?thesis by simp
  next
    case False
    with j have t: "tryMatchPlayers createRoom joinRoom now ws rm0 = (res, rm')"
      by (simp add: joinMatchmaking_def rm0_def queued_def)
    have "distinct (map fst (rm_matchmakingQueue rm0))"
      using d by (simp add: rm0_def queued_def jsMapSet_distinct)
    from tryMatchPlayers_queue[of createRoom joinRoom, OF fc fj t this] show ?thesis .
  qed
  have once: "length (filter (\<lambda>p. fst p = ws) (rm_matchmakingQueue rm')) \<le> 1"
    using dist by (rule distinct_keys_once)
  have paired: "mr_matched res \<longrightarrow>
           (\<exists>otherWs roomCode hostId playerId playerCount queued rm1 rm2.
              queued = jsMapSet ws \<lparr>qp_ws = ws, qp_joinedAt = now\<rparr> (rm_matchmakingQueue rm) \<and>
              otherWs \<noteq> ws \<and> jsMapHas otherWs queued \<and> jsMapHas ws queued \<and>
              rm1 = rm\<lparr>rm_matchmakingQueue := jsMapDelete otherWs (jsMapDelete ws queued)\<rparr> \<and>
              \<not> jsMapHas ws (rm_matchmakingQueue rm1) \<and>
              \<not> jsMapHas otherWs (rm_matchmakingQueue rm1) \<and>
              createRoom otherWs rm1 = (Some (roomCode, hostId), rm2) \<and>
              joinRoom ws roomCode rm2 = (Some (playerId, playerCount), rm') \<and>
              res = \<lparr>mr_matched = True, mr_roomCode = Some roomCode,
                      mr_playerId = Some playerId\<rparr> \<and>
              \<not> jsMapHas ws (rm_matchmakingQueue rm') \<and>
              \<not> jsMapHas otherWs (rm_matchmakingQueue rm') \<and>
              fst ` set (rm_matchmakingQueue rm')
                = fst ` set (rm_matchmakingQueue rm) - {otherWs})"
  proof
    assume m: "mr_matched res"
    with already have nh: "\<not> jsMapHas ws (rm_matchmakingQueue rm)" by auto
    with j have t: "tryMatchPlayers createRoom joinRoom now ws rm0 = (res, rm')"
      by (simp add: joinMatchmaking_def rm0_def queued_def)
    from tryMatchPlayers_matched[OF t m]
    obtain otherWs otherPlayer roomCode hostId playerId playerCount rm2 where
      f: "findOther ws (rm_matchmakingQueue rm0) = Some (otherWs, otherPlayer)"
      and cr: "createRoom otherWs
                 (rm0\<lparr>rm_matchmakingQueue :=
                        jsMapDelete otherWs (jsMapDelete ws (rm_matchmakingQueue rm0))\<rparr>)
               = (Some (roomCode, hostId), rm2)"
      and jr: "joinRoom ws roomCode rm2 = (Some (playerId, playerCount), rm')"
      and r: "res = \<lparr>mr_matched = True, mr_roomCode = Some roomCode, mr_playerId = Some playerId\<rparr>"
      by blast
    define rm1 where
      "rm1 = rm\<lparr>rm_matchmakingQueue := jsMapDelete otherWs (jsMapDelete ws queued)\<rparr>"
    have rm1: "rm0\<lparr>rm_matchmakingQueue :=
                    jsMapDelete otherWs (jsMapDelete ws (rm_matchmakingQueue rm0))\<rparr> = rm1"
      by (simp add: rm0_def rm1_def)
    from findOther_Some[OF f] have ne: "otherWs \<noteq> ws"
      and mem: "(otherWs, otherPlayer) \<in> set queued" by (simp_all add: rm0_def)
    from mem have ho: "jsMapHas otherWs queued" by (force simp: jsMapHas_iff)
    have hw: "jsMapHas ws queued" by (simp add: queued_def jsMapHas_set)
    have q1: "rm_matchmakingQueue rm1 = jsMapDelete otherWs (jsMapDelete ws queued)"
      by (simp add: rm1_def)
    have n1: "\<not> jsMapHas ws (rm_matchmakingQueue rm1)" "\<not> jsMapHas otherWs (rm_matchmakingQueue rm1)"
      by (simp_all add: q1 jsMapHas_delete)
    from cr have cr1: "createRoom otherWs rm1 = (Some (roomCode, hostId), rm2)"
      unfolding rm1 .
    have q': "rm_matchmakingQueue rm' = rm_matchmakingQueue rm1"
      using c[OF cr1] jn[OF jr] by simp
    have n': "\<not> jsMapHas ws (rm_matchmakingQueue rm')" "\<not> jsMapHas otherWs (rm_matchmakingQueue rm')"
      using n1 by (simp_all add: q')
    have kw: "ws \<notin> fst ` set (rm_matchmakingQueue rm)" using nh by (simp add: jsMapHas_iff)
    have keys: "fst ` set (rm_matchmakingQueue rm') = fst ` set (rm_matchmakingQueue rm) - {otherWs}"
      unfolding q' q1 jsMapDelete_keys queued_def jsMapSet_keys using kw by auto
    from ne ho hw n1 cr1 jr r n' keys show
      "\<exists>otherWs roomCode hostId playerId playerCount queued rm1 rm2.
              queued = jsMapSet ws \<lparr>qp_ws = ws, qp_joinedAt = now\<rparr> (rm_matchmakingQueue rm) \<and>
              otherWs \<noteq> ws \<and> jsMapHas otherWs queued \<and> jsMapHas ws queued \<and>
              rm1 = rm\<lparr>rm_matchmakingQueue := jsMapDelete otherWs (jsMapDelete ws queued)\<rparr> \<and>
              \<not> jsMapHas ws (rm_matchmakingQueue rm1) \<and>
              \<not> jsMapHas otherWs (rm_matchmakingQueue rm1) \<and>
              createRoom otherWs rm1 = (Some (roomCode, hostId), rm2) \<and>
              joinRoom ws roomCode rm2 = (Some (playerId, playerCount), rm') \<and>
              res = \<lparr>mr_matched = True, mr_roomCode = Some roomCode,
                      mr_playerId = Some playerId\<rparr> \<and>
              \<not> jsMapHas ws (rm_matchmakingQueue rm') \<and>
              \<not> jsMapHas otherWs (rm_matchmakingQueue rm') \<and>
              fst ` set (rm_matchmakingQueue rm')
                = fst ` set (rm_matchmakingQueue rm) - {otherWs}"
      unfolding rm1_def queued_def by blast
  qed
  from paired already dist once show ?thesis by blast
qed

text \<open>The theorem at \<open>oneWaiting\<close>: socket 2 asks and is paired with socket 1, the queue
  ends empty; socket 1 asking again while it waits changes nothing.\<close>

theorem matchmaking_pairing_witness:
  "distinct (map fst (rm_matchmakingQueue oneWaiting)) \<and>
   joinMatchmaking openRoom enterRoom 200 2 oneWaiting =
     (\<lparr>mr_matched = True, mr_roomCode = Some ''ARENA1'', mr_playerId = Some ''player2''\<rparr>,
      \<lparr>rm_matchmakingQueue = [], rm_rest = [(''ARENA1'', [1, 2])]\<rparr>) \<and>
   jsMapHas 1 (rm_matchmakingQueue oneWaiting) \<and>
   \<not> jsMapHas 2 (rm_matchmakingQueue oneWaiting) \<and>
   \<not> isInMatchmaking 1 (snd (joinMatchmaking openRoom enterRoom 200 2 oneWaiting)) \<and>
   \<not> isInMatchmaking 2 (snd (joinMatchmaking openRoom enterRoom 200 2 oneWaiting)) \<and>
   joinMatchmaking openRoom enterRoom 300 1 oneWaiting =
     (\<lparr>mr_matched = False, mr_roomCode = None, mr_playerId = None\<rparr>, oneWaiting)"
proof -
  have d: "distinct (map fst (rm_matchmakingQueue oneWaiting))" by (simp add: oneWaiting_def)
  have h: "jsMapHas 1 (rm_matchmakingQueue oneWaiting)"
          "\<not> jsMapHas 2 (rm_matchmakingQueue oneWaiting)"
    by (simp_all add: oneWaiting_def jsMapHas_def)
  have e: "\<not> isInMatchmaking 1 (snd (joinMatchmaking openRoom enterRoom 200 2 oneWaiting))"
          "\<not> isInMatchmaking 2 (snd (joinMatchmaking openRoom enterRoom 200 2 oneWaiting))"
    unfolding pairing_run by (simp_all add: isInMatchmaking_def jsMapHas_def)
  note first = matchmaking_pairing[of openRoom enterRoom oneWaiting 200 2,
      OF openRoom_queue enterRoom_queue d pairing_run]
  note second = matchmaking_pairing[of openRoom enterRoom oneWaiting 300 1,
      OF openRoom_queue enterRoom_queue d repeated_run]
  from first second d h e pairing_run repeated_run show ?thesis by blast
qed

section \<open>Who a projectile can damage\<close>

lemma ownShot_step:
  "snd (stepBullet heavyShell (startLoop ownShot)) = startLoop ownShot"
  by (simp add: startLoop_def ownShot_def heavyShell_def hawk_def eval_defs)

text \<open>
  C10. In one iteration of the bullet update, the entry of the projectile's owner and the
  entry of every player whose health is already at most 0 keep their health, shield and
  shield recharge timer (a dead player that is not the owner is not changed at all; the
  owner can only gain score). The players change at all only when some living player other
  than the owner is inside the hit box: then that player takes the damage and the timer
  reset, and the owner the score. Over a whole bullet update: a player that was dead when
  the update began, or that owns every projectile in flight, ends it with the health,
  shield and timer it had. Player ids are the keys of an object, hence distinct.
\<close>

theorem bullet_spares_owner_and_dead:
  "(distinct (map fst (gs_players (bl_state l))) \<and>
    (pid, c) \<in> set (gs_players (bl_state l)) \<and>
    (pid = bullet_ownerId bullet \<or> car_health c \<le> 0) \<longrightarrow>
      (\<exists>c'. (pid, c') \<in> set (gs_players (bl_state (snd (stepBullet bullet l)))) \<and>
         car_health c' = car_health c \<and> car_shield c' = car_shield c \<and>
         car_shieldRechargeTimer c' = car_shieldRechargeTimer c \<and>
         (pid \<noteq> bullet_ownerId bullet \<longrightarrow> c' = c))) \<and>
   (gs_players (bl_state (snd (stepBullet bullet l))) = gs_players (bl_state l) \<or>
    (\<exists>p \<in> set (gs_players (bl_state l)).
       fst p \<noteq> bullet_ownerId bullet \<and> 0 < car_health (snd p) \<and>
       checkBulletCarCollision (moveBullet bullet) (snd p) \<and>
       gs_players (bl_state (snd (stepBullet bullet l))) =
         updatePlayer (bullet_ownerId bullet)
           (awardShooter (moveBullet bullet) (damageTarget (moveBullet bullet) (snd p)))
           (updatePlayer (fst p) (\<lambda>_. damageTarget (moveBullet bullet) (snd p))
              (gs_players (bl_state l))))) \<and>
   (distinct (map fst (gs_players gs)) \<and> (pid, c) \<in> set (gs_players gs) \<and>
    (car_health c \<le> 0 \<or> (\<forall>b \<in> set (gs_bullets gs). bullet_ownerId b = pid)) \<longrightarrow>
      (\<exists>c'. (pid, c') \<in> set (gs_players (fst (updateBullets gs))) \<and>
         car_health c' = car_health c \<and> car_shield c' = car_shield c \<and>
         car_shieldRechargeTimer c' = car_shieldRechargeTimer c))"
proof -
  have a: "distinct (map fst (gs_players (bl_state l))) \<and>
    (pid, c) \<in> set (gs_players (bl_state l)) \<and>
    (pid = bullet_ownerId bullet \<or> car_health c \<le> 0) \<longrightarrow>
      (\<exists>c'. (pid, c') \<in> set (gs_players (bl_state (snd (stepBullet bullet l)))) \<and>
         car_health c' = car_health c \<and> car_shield c' = car_shield c \<and>
         car_shieldRechargeTimer c' = car_shieldRechargeTimer c \<and>
         (pid \<noteq> bullet_ownerId bullet \<longrightarrow> c' = c))"
    using stepBullet_spares[of l pid c bullet] by blast
  have b: "gs_players (bl_state (snd (stepBullet bullet l))) = gs_players (bl_state l) \<or>
    (\<exists>p \<in> set (gs_players (bl_state l)).
       fst p \<noteq> bullet_ownerId bullet \<and> 0 < car_health (snd p) \<and>
       checkBulletCarCollision (moveBullet bullet) (snd p) \<and>
       gs_players (bl_state (snd (stepBullet bullet l))) =
         updatePlayer (bullet_ownerId bullet)
           (awardShooter (moveBullet bullet) (damageTarget (moveBullet bullet) (snd p)))
           (updatePlayer (fst p) (\<lambda>_. damageTarget (moveBullet bullet) (snd p))
              (gs_players (bl_state l))))"
    using stepBullet_players_cases[of bullet l]
    by (auto simp: eligibleTarget_def applyDamage_players)
  have c: "distinct (map fst (gs_players gs)) \<and> (pid, c) \<in> set (gs_players gs) \<and>
    (car_health c \<le> 0 \<or> (\<forall>b \<in> set (gs_bullets gs). bullet_ownerId b = pid)) \<longrightarrow>
      (\<exists>c'. (pid, c') \<in> set (gs_players (fst (updateBullets gs))) \<and>
         car_health c' = car_health c \<and> car_shield c' = car_shield c \<and>
         car_shieldRechargeTimer c' = car_shieldRechargeTimer c)"
    unfolding updateBullets_players
    using bulletLoop_spares[of "startLoop gs" pid c "gs_bullets gs"]
    by (simp add: startLoop_def)
  from a b c show ?thesis by blast
qed

theorem bullet_spares_owner_and_dead_witness:
  "distinct (map fst (gs_players (bl_state (startLoop ownShot)))) \<and>
   (''p1'', hawk ''p1'' 592 400 0) \<in> set (gs_players (bl_state (startLoop ownShot))) \<and>
   ''p1'' = bullet_ownerId heavyShell \<and>
   checkBulletCarCollision (moveBullet heavyShell) (hawk ''p1'' 592 400 0) \<and>
   (\<exists>c'. (''p1'', c') \<in>
            set (gs_players (bl_state (snd (stepBullet heavyShell (startLoop ownShot))))) \<and>
          car_health c' = 100 \<and> car_shield c' = 50 \<and> car_shieldRechargeTimer c' = 0) \<and>
   gs_players (bl_state (snd (stepBullet heavyShell (startLoop ownShot)))) = gs_players ownShot"
proof -
  have d: "distinct (map fst (gs_players (bl_state (startLoop ownShot))))"
    and m: "(''p1'', hawk ''p1'' 592 400 0) \<in> set (gs_players (bl_state (startLoop ownShot)))"
    and o: "''p1'' = bullet_ownerId heavyShell"
    and h: "checkBulletCarCollision (moveBullet heavyShell) (hawk ''p1'' 592 400 0)"
    by (simp_all add: startLoop_def ownShot_def heavyShell_def hawk_def eval_defs)
  have f: "car_health (hawk ''p1'' 592 400 0) = 100" "car_shield (hawk ''p1'' 592 400 0) = 50"
    "car_shieldRechargeTimer (hawk ''p1'' 592 400 0) = 0"
    by (simp_all add: hawk_def)
  from bullet_spares_owner_and_dead[of "startLoop ownShot" "''p1''" "hawk ''p1'' 592 400 0"
      heavyShell] d m o
  have "\<exists>c'. (''p1'', c') \<in>
            set (gs_players (bl_state (snd (stepBullet heavyShell (startLoop ownShot))))) \<and>
          car_health c' = car_health (hawk ''p1'' 592 400 0) \<and>
          car_shield c' = car_shield (hawk ''p1'' 592 400 0) \<and>
          car_shieldRechargeTimer c' = car_shieldRechargeTimer (hawk ''p1'' 592 400 0)"
    by blast
  then have e: "\<exists>c'. (''p1'', c') \<in>
            set (gs_players (bl_state (snd (stepBullet heavyShell (startLoop ownShot))))) \<and>
          car_health c' = 100 \<and> car_shield c' = 50 \<and> car_shieldRechargeTimer c' = 0"
    unfolding f .
  have "gs_players (bl_state (snd (stepBullet heavyShell (startLoop ownShot)))) =
          gs_players ownShot"
    unfolding ownShot_step by (simp add: startLoop_def)
  with d m o h e show ?thesis by blast
qed

end
